theory Spec2Isabelle
  imports Complex_Main "HOL-Library.Multiset"
begin

section \<open>Tensors and framework errors\<close>

text \<open>
  The notebook \<^verbatim>\<open>DSC_Workshop_Neural_Nets_tim.ipynb\<close> wires PyTorch components together.
  Its own code is the class \<^verbatim>\<open>NeuralNetwork\<close> (two cells), the functions \<^verbatim>\<open>train\<close> and
  \<^verbatim>\<open>test\<close>, the epoch loop (two cells), and the construction of the transformation lists
  and of the two data loaders.  The framework operations these call are embedded by their
  documented behaviour, first over the real numbers: a float is read as the real number
  it stands for, with no rounding and no overflow.  The evaluation step is embedded a
  second time in single precision, where values overflow to infinity and NaN arises.

  A tensor is its shape and its elements in row-major order.  The exceptions that the
  embedded operations can raise are values of the type \<open>error\<close>.
\<close>

datatype error =
    ZeroDivisionError
  | RuntimeError
  | IndexError
  | ValueError
  | NotANumber

record Tensor =
  shape :: "nat list"
  data :: "real list"

text \<open>Consecutive pieces of \<open>n\<close> elements; the last piece holds what is left.\<close>

function chunks :: "nat \<Rightarrow> 'a list \<Rightarrow> 'a list list" where
  "chunks n xs = (if n = 0 \<or> xs = [] then [] else take n xs # chunks n (drop n xs))"
  by pat_completeness auto
termination
  by (relation "measure (\<lambda>(n, xs). length xs)") auto

declare chunks.simps [simp del]

text \<open>
  \<^verbatim>\<open>nn.Flatten()\<close> and \<^verbatim>\<open>torch.flatten(x, 1)\<close>: both flatten the dimensions from
  \<open>start_dim\<close> to the last one into a single dimension and keep the elements in place.
  A tensor with no dimension \<open>start_dim\<close> is refused.
\<close>

definition flatten :: "nat \<Rightarrow> Tensor \<Rightarrow> error + Tensor" where
  "flatten start_dim x =
     (if start_dim < length (shape x)
      then Inr (x\<lparr>shape := take start_dim (shape x) @ [prod_list (drop start_dim (shape x))]\<rparr>)
      else Inl IndexError)"

section \<open>Parameters and layers\<close>

text \<open>
  A parameter is a tensor's elements together with its gradient buffer \<^verbatim>\<open>.grad\<close>, which is
  \<^verbatim>\<open>None\<close> until a backward pass has filled it.
\<close>

record Parameter =
  pdata :: "real list"
  grad :: "real list option"

record Linear =
  weight :: Parameter
  bias :: Parameter

definition dot :: "real list \<Rightarrow> real list \<Rightarrow> real" where
  "dot xs ys = sum_list (map2 (*) xs ys)"

text \<open>
  \<^verbatim>\<open>nn.Linear(n_in, n_out)\<close> on one input row: output \<open>j\<close> is the product of row \<open>j\<close> of
  the weight matrix (stored row-major, \<open>n_out\<close> rows of \<open>n_in\<close> elements) with the input,
  plus element \<open>j\<close> of the bias.
\<close>

definition affine :: "nat \<Rightarrow> nat \<Rightarrow> Linear \<Rightarrow> real list \<Rightarrow> real list" where
  "affine n_in n_out l row =
     map (\<lambda>j. dot (take n_in (drop (j * n_in) (pdata (weight l)))) row + pdata (bias l) ! j)
       [0..<n_out]"

text \<open>
  The layer acts on the last dimension of its input, which must have \<open>n_in\<close> elements;
  otherwise the matrix product raises.
\<close>

definition Linear_forward :: "nat \<Rightarrow> nat \<Rightarrow> Linear \<Rightarrow> Tensor \<Rightarrow> error + Tensor" where
  "Linear_forward n_in n_out l x =
     (if shape x = [] \<or> last (shape x) \<noteq> n_in then Inl RuntimeError
      else Inr \<lparr>shape = butlast (shape x) @ [n_out],
                data = concat (map (affine n_in n_out l) (chunks n_in (data x)))\<rparr>)"

text \<open>\<^verbatim>\<open>nn.ReLU()\<close>: every negative element becomes zero.\<close>

definition ReLU :: "Tensor \<Rightarrow> error + Tensor" where
  "ReLU x = Inr (x\<lparr>data := map (max 0) (data x)\<rparr>)"

text \<open>\<^verbatim>\<open>nn.Sequential\<close>: the modules in order, each on the output of the one before.\<close>

fun Sequential :: "(Tensor \<Rightarrow> error + Tensor) list \<Rightarrow> Tensor \<Rightarrow> error + Tensor" where
  "Sequential [] x = Inr x"
| "Sequential (f # fs) x = (case f x of Inl e \<Rightarrow> Inl e | Inr y \<Rightarrow> Sequential fs y)"

section \<open>The class NeuralNetwork\<close>

text \<open>
  An instance holds the mode flag of \<^verbatim>\<open>nn.Module\<close> and the three linear layers, named by
  their place in the module tree: \<^verbatim>\<open>linear_relu_stack.0\<close>, \<^verbatim>\<open>linear_relu_stack.2\<close> and
  \<^verbatim>\<open>last_layer.0\<close>.  The layer sizes are the constants of \<^verbatim>\<open>__init__\<close>.
\<close>

record NeuralNetwork =
  training :: bool
  stack_0 :: Linear
  stack_2 :: Linear
  last_0 :: Linear

definition NeuralNetwork_init ::
  "real list \<Rightarrow> real list \<Rightarrow> real list \<Rightarrow> real list \<Rightarrow> real list \<Rightarrow> real list \<Rightarrow> NeuralNetwork" where
  "NeuralNetwork_init w0 b0 w2 b2 wl bl =
     \<lparr>training = True,
      stack_0 = \<lparr>weight = \<lparr>pdata = w0, grad = None\<rparr>, bias = \<lparr>pdata = b0, grad = None\<rparr>\<rparr>,
      stack_2 = \<lparr>weight = \<lparr>pdata = w2, grad = None\<rparr>, bias = \<lparr>pdata = b2, grad = None\<rparr>\<rparr>,
      last_0 = \<lparr>weight = \<lparr>pdata = wl, grad = None\<rparr>, bias = \<lparr>pdata = bl, grad = None\<rparr>\<rparr>\<rparr>"

definition linear_relu_stack :: "NeuralNetwork \<Rightarrow> Tensor \<Rightarrow> error + Tensor" where
  "linear_relu_stack m =
     Sequential [Linear_forward (3 * 64 * 64) 64 (stack_0 m), ReLU,
                 Linear_forward 64 64 (stack_2 m), ReLU]"

definition last_layer :: "NeuralNetwork \<Rightarrow> Tensor \<Rightarrow> error + Tensor" where
  "last_layer m = Sequential [Linear_forward 64 8 (last_0 m)]"

text \<open>The \<^verbatim>\<open>forward\<close> method of the walkthrough cell.\<close>

definition forward :: "NeuralNetwork \<Rightarrow> Tensor \<Rightarrow> error + Tensor" where
  "forward m x =
     (case flatten 1 x of Inl e \<Rightarrow> Inl e | Inr x1 \<Rightarrow>
      case linear_relu_stack m x1 of Inl e \<Rightarrow> Inl e | Inr x2 \<Rightarrow>
      last_layer m x2)"

text \<open>
  The \<^verbatim>\<open>forward\<close> method of the exercise cell, with \<^verbatim>\<open>torch.flatten(x, 1)\<close> between the
  stack and the last layer.
\<close>

definition forward_exercise :: "NeuralNetwork \<Rightarrow> Tensor \<Rightarrow> error + Tensor" where
  "forward_exercise m x =
     (case flatten 1 x of Inl e \<Rightarrow> Inl e | Inr x1 \<Rightarrow>
      case linear_relu_stack m x1 of Inl e \<Rightarrow> Inl e | Inr x2 \<Rightarrow>
      case flatten 1 x2 of Inl e \<Rightarrow> Inl e | Inr x3 \<Rightarrow>
      last_layer m x3)"

text \<open>
  The scores of one flattened sample, layer by layer on the sample's own row.  The batch
  functions above are compared with it below.
\<close>

definition scores :: "NeuralNetwork \<Rightarrow> real list \<Rightarrow> real list" where
  "scores m row =
     affine 64 8 (last_0 m)
       (map (max 0) (affine 64 64 (stack_2 m)
         (map (max 0) (affine (3 * 64 * 64) 64 (stack_0 m) row))))"

section \<open>Transformations\<close>

text \<open>
  The transformation lists of the two cells.  The image operations belong to the
  framework and are parameters: \<open>resize\<close>, \<open>to_tensor\<close> and \<open>rotate\<close> are functions of
  their arguments alone, and the only source of randomness is the generator state that
  \<^verbatim>\<open>RandomRotation\<close> draws its angle from.
\<close>

datatype transform = Resize nat nat | ToTensor | RandomRotation real real

record ('v, 'g) vision =
  resize :: "nat \<Rightarrow> nat \<Rightarrow> 'v \<Rightarrow> 'v"
  to_tensor :: "'v \<Rightarrow> 'v"
  rotate :: "real \<Rightarrow> 'v \<Rightarrow> 'v"
  uniform :: "real \<Rightarrow> real \<Rightarrow> 'g \<Rightarrow> real \<times> 'g"

fun apply_transform :: "('v, 'g) vision \<Rightarrow> transform \<Rightarrow> 'v \<times> 'g \<Rightarrow> 'v \<times> 'g" where
  "apply_transform fw (Resize h w) (img, g) = (resize fw h w img, g)"
| "apply_transform fw ToTensor (img, g) = (to_tensor fw img, g)"
| "apply_transform fw (RandomRotation lo hi) (img, g) =
     (case uniform fw lo hi g of (angle, g') \<Rightarrow> (rotate fw angle img, g'))"

text \<open>\<^verbatim>\<open>transforms.Compose\<close>: the transformations in order.\<close>

definition Compose :: "('v, 'g) vision \<Rightarrow> transform list \<Rightarrow> 'v \<times> 'g \<Rightarrow> 'v \<times> 'g" where
  "Compose fw ts = fold (apply_transform fw) ts"

definition base_transformations :: "transform list" where
  "base_transformations = [Resize 64 64, ToTensor]"

text \<open>The walkthrough cell has the rotation commented out; the exercise cell has it.\<close>

definition augmentation_transformations :: "transform list" where
  "augmentation_transformations = []"

definition augmentation_transformations_exercise :: "transform list" where
  "augmentation_transformations_exercise = [RandomRotation (- 45) 45]"

definition train_transformations :: "transform list" where
  "train_transformations = base_transformations @ augmentation_transformations"

definition train_transformations_exercise :: "transform list" where
  "train_transformations_exercise = base_transformations @ augmentation_transformations_exercise"

definition test_transformations :: "transform list" where
  "test_transformations = base_transformations"

section \<open>Data loaders\<close>

text \<open>
  A dataset is the list of its (image tensor, label) pairs.  A \<^verbatim>\<open>DataLoader\<close> holds the
  dataset, the batch size and the shuffle flag; the notebook builds two of them.
\<close>

type_synonym sample = "Tensor \<times> nat"

record DataLoader =
  dataset :: "sample list"
  batch_size :: nat
  shuffle :: bool

definition train_dataloader :: "sample list \<Rightarrow> DataLoader" where
  "train_dataloader train_set = \<lparr>dataset = train_set, batch_size = 32, shuffle = True\<rparr>"

definition val_dataloader :: "sample list \<Rightarrow> DataLoader" where
  "val_dataloader val_set = \<lparr>dataset = val_set, batch_size = 32, shuffle = False\<rparr>"

text \<open>\<^verbatim>\<open>len(dataloader)\<close>, as the framework computes it when no batch is dropped.\<close>

definition len_DataLoader :: "DataLoader \<Rightarrow> nat" where
  "len_DataLoader dl = (length (dataset dl) + batch_size dl - 1) div batch_size dl"

text \<open>
  Modelled from the spec: the iteration of \<^verbatim>\<open>torch.utils.data.DataLoader\<close>, which is
  framework code.  One pass visits the samples in the order \<open>perm\<close> drawn for that pass
  when the loader shuffles, in dataset order otherwise, and groups them into batches of
  \<open>batch_size\<close>; the last batch holds what is left.
\<close>

definition visit_order :: "DataLoader \<Rightarrow> nat list \<Rightarrow> sample list" where
  "visit_order dl perm = (if shuffle dl then map (\<lambda>i. dataset dl ! i) perm else dataset dl)"

definition batches :: "DataLoader \<Rightarrow> nat list \<Rightarrow> sample list list" where
  "batches dl perm = chunks (batch_size dl) (visit_order dl perm)"

text \<open>The order drawn by a shuffling loader is a permutation of the indices of the dataset.\<close>

definition sampler_order :: "DataLoader \<Rightarrow> nat list \<Rightarrow> bool" where
  "sampler_order dl perm \<longleftrightarrow> (shuffle dl \<longrightarrow> mset perm = mset [0..<length (dataset dl)])"

text \<open>
  The default collate function stacks the images of a batch into one tensor, which needs
  them to have one shape, and gathers the labels.
\<close>

definition collate :: "sample list \<Rightarrow> error + Tensor \<times> nat list" where
  "collate b =
     (case b of
        [] \<Rightarrow> Inl IndexError
      | s # _ \<Rightarrow>
          if list_all (\<lambda>s'. shape (fst s') = shape (fst s)) b
          then Inr (\<lparr>shape = length b # shape (fst s), data = concat (map (\<lambda>s'. data (fst s')) b)\<rparr>,
                    map snd b)
          else Inl RuntimeError)"

section \<open>Loss, predictions, optimizer\<close>

text \<open>
  \<^verbatim>\<open>nn.CrossEntropyLoss()\<close> with its default mean reduction: the mean over the batch of
  the negative log-softmax score of the true class.  Scores must be a matrix with one row
  per label and every label must name a column.  On an empty batch the framework yields
  NaN, which is no real number; the loaders never produce an empty batch.
\<close>

definition cross_entropy :: "real list \<Rightarrow> nat \<Rightarrow> real" where
  "cross_entropy row t = ln (sum_list (map exp row)) - row ! t"

definition CrossEntropyLoss :: "Tensor \<Rightarrow> nat list \<Rightarrow> error + real" where
  "CrossEntropyLoss input target =
     (case shape input of
        [n, c] \<Rightarrow>
          if length target \<noteq> n then Inl ValueError
          else if \<not> list_all (\<lambda>t. t < c) target then Inl IndexError
          else if n = 0 then Inl NotANumber
          else Inr (sum_list (map2 cross_entropy (chunks c (data input)) target) / real n)
      | _ \<Rightarrow> Inl ValueError)"

text \<open>\<^verbatim>\<open>argmax\<close>: the index of the first largest element.\<close>

fun argmax :: "real list \<Rightarrow> nat" where
  "argmax [] = 0"
| "argmax [x] = 0"
| "argmax (x # xs) = (let j = argmax xs in if x < xs ! j then Suc j else 0)"

text \<open>\<^verbatim>\<open>(preds.argmax(1) == y).type(torch.float).sum().item()\<close>\<close>

definition count_correct :: "Tensor \<Rightarrow> nat list \<Rightarrow> nat" where
  "count_correct preds y =
     length (filter (\<lambda>(row, t). argmax row = t) (zip (chunks (last (shape preds)) (data preds)) y))"

text \<open>The parameters of the network by name, as \<^verbatim>\<open>model.named_parameters()\<close> lists them.\<close>

datatype pname =
    stack_0_weight | stack_0_bias
  | stack_2_weight | stack_2_bias
  | last_0_weight | last_0_bias

fun get_parameter :: "NeuralNetwork \<Rightarrow> pname \<Rightarrow> Parameter" where
  "get_parameter m stack_0_weight = weight (stack_0 m)"
| "get_parameter m stack_0_bias = bias (stack_0 m)"
| "get_parameter m stack_2_weight = weight (stack_2 m)"
| "get_parameter m stack_2_bias = bias (stack_2 m)"
| "get_parameter m last_0_weight = weight (last_0 m)"
| "get_parameter m last_0_bias = bias (last_0 m)"

text \<open>
  The optimizer holds references to the parameters of the model and changes them in
  place: here each operation returns the model with the parameters changed.
\<close>

definition map_parameters :: "(pname \<Rightarrow> Parameter \<Rightarrow> Parameter) \<Rightarrow> NeuralNetwork \<Rightarrow> NeuralNetwork" where
  "map_parameters f m =
     m\<lparr>stack_0 := \<lparr>weight = f stack_0_weight (weight (stack_0 m)),
                   bias = f stack_0_bias (bias (stack_0 m))\<rparr>,
       stack_2 := \<lparr>weight = f stack_2_weight (weight (stack_2 m)),
                   bias = f stack_2_bias (bias (stack_2 m))\<rparr>,
       last_0 := \<lparr>weight = f last_0_weight (weight (last_0 m)),
                  bias = f last_0_bias (bias (last_0 m))\<rparr>\<rparr>"

definition parameter_values :: "NeuralNetwork \<Rightarrow> pname \<Rightarrow> real list" where
  "parameter_values m n = pdata (get_parameter m n)"

text \<open>
  \<^verbatim>\<open>torch.optim.SGD(model.parameters(), lr=...)\<close>.  What \<^verbatim>\<open>zero_grad()\<close> leaves in a
  gradient buffer depends on the default of its \<^verbatim>\<open>set_to_none\<close> argument in the
  installed framework: \<^verbatim>\<open>None\<close>, or zeros in a buffer that exists.
\<close>

record SGD =
  lr :: real
  set_to_none :: bool

definition zero_grad :: "SGD \<Rightarrow> NeuralNetwork \<Rightarrow> NeuralNetwork" where
  "zero_grad opt =
     map_parameters (\<lambda>n p. p\<lparr>grad := (if set_to_none opt then None
                                         else map_option (map (\<lambda>_. 0)) (grad p))\<rparr>)"

text \<open>
  \<^verbatim>\<open>loss.backward()\<close> adds the gradient \<open>g\<close> of the loss to every gradient buffer; an
  empty buffer receives the gradient itself.
\<close>

definition backward :: "(pname \<Rightarrow> real list) \<Rightarrow> NeuralNetwork \<Rightarrow> NeuralNetwork" where
  "backward g =
     map_parameters (\<lambda>n p. p\<lparr>grad := Some (case grad p of None \<Rightarrow> g n
                                                | Some a \<Rightarrow> map2 (+) a (g n))\<rparr>)"

text \<open>\<^verbatim>\<open>optimizer.step()\<close>: every parameter with a gradient moves against it.\<close>

definition step :: "SGD \<Rightarrow> NeuralNetwork \<Rightarrow> NeuralNetwork" where
  "step opt =
     map_parameters (\<lambda>n p. case grad p of None \<Rightarrow> p
                        | Some d \<Rightarrow> p\<lparr>pdata := map2 (\<lambda>w dw. w - lr opt * dw) (pdata p) d\<rparr>)"

section \<open>The functions train and test\<close>

text \<open>
  The globals and arguments that \<^verbatim>\<open>train\<close> and \<^verbatim>\<open>test\<close> work with: the \<^verbatim>\<open>forward\<close>
  method of the model's class, the loss function, the optimizer, and the reverse-mode
  differentiation of the framework, which gives the gradient of the batch loss at the
  current parameter values.
\<close>

record env =
  fwd :: "NeuralNetwork \<Rightarrow> Tensor \<Rightarrow> error + Tensor"
  loss_fn :: "Tensor \<Rightarrow> nat list \<Rightarrow> error + real"
  optimizer :: SGD
  autograd :: "(pname \<Rightarrow> real list) \<Rightarrow> Tensor \<Rightarrow> nat list \<Rightarrow> pname \<Rightarrow> real list"

text \<open>The body of the loop of \<^verbatim>\<open>train\<close>, steps 1 to 4, on one batch.\<close>

definition train_batch :: "env \<Rightarrow> NeuralNetwork \<Rightarrow> Tensor \<Rightarrow> nat list \<Rightarrow> NeuralNetwork \<times> (error + real)" where
  "train_batch E model X y =
     (case fwd E model X of Inl e \<Rightarrow> (model, Inl e) | Inr pred \<Rightarrow>
      case loss_fn E pred y of Inl e \<Rightarrow> (model, Inl e) | Inr loss \<Rightarrow>
      let g = autograd E (parameter_values model) X y;
          model = zero_grad (optimizer E) model;
          model = backward g model;
          model = step (optimizer E) model
      in (model, Inr loss))"

fun train_loop :: "env \<Rightarrow> NeuralNetwork \<Rightarrow> sample list list \<Rightarrow> real \<Rightarrow> NeuralNetwork \<times> (error + real)" where
  "train_loop E model [] train_loss = (model, Inr train_loss)"
| "train_loop E model (b # bs) train_loss =
     (case collate b of Inl e \<Rightarrow> (model, Inl e) | Inr (X, y) \<Rightarrow>
      case train_batch E model X y of
        (model', Inl e) \<Rightarrow> (model', Inl e)
      | (model', Inr loss) \<Rightarrow> train_loop E model' bs (train_loss + loss))"

text \<open>
  \<^verbatim>\<open>train(dataloader, model, loss_fn, optimizer)\<close>.  The result is the model as the call
  leaves it, and the value returned or the exception raised.
\<close>

definition train :: "env \<Rightarrow> DataLoader \<Rightarrow> nat list \<Rightarrow> NeuralNetwork \<Rightarrow> NeuralNetwork \<times> (error + real)" where
  "train E dataloader perm model =
     (let num_batches = len_DataLoader dataloader;
          model = model\<lparr>training := True\<rparr>
      in case train_loop E model (batches dataloader perm) 0 of
           (model, Inl e) \<Rightarrow> (model, Inl e)
         | (model, Inr train_loss) \<Rightarrow>
             if num_batches = 0 then (model, Inl ZeroDivisionError)
             else (model, Inr (train_loss / real num_batches)))"

fun test_loop :: "env \<Rightarrow> NeuralNetwork \<Rightarrow> sample list list \<Rightarrow> real \<times> real \<Rightarrow> error + real \<times> real" where
  "test_loop E model [] acc = Inr acc"
| "test_loop E model (b # bs) (test_loss, correct) =
     (case collate b of Inl e \<Rightarrow> Inl e | Inr (X, y) \<Rightarrow>
      case fwd E model X of Inl e \<Rightarrow> Inl e | Inr preds \<Rightarrow>
      case loss_fn E preds y of Inl e \<Rightarrow> Inl e | Inr l \<Rightarrow>
      test_loop E model bs (test_loss + l, correct + real (count_correct preds y)))"

text \<open>
  \<^verbatim>\<open>test(dataloader, model, loss_fn)\<close>: the two divisions follow the loop, the one by the
  number of batches first.
\<close>

definition test :: "env \<Rightarrow> DataLoader \<Rightarrow> nat list \<Rightarrow> NeuralNetwork \<Rightarrow> NeuralNetwork \<times> (error + real \<times> real)" where
  "test E dataloader perm model =
     (let size = length (dataset dataloader);
          num_batches = len_DataLoader dataloader;
          model = model\<lparr>training := False\<rparr>
      in (model,
          case test_loop E model (batches dataloader perm) (0, 0) of
            Inl e \<Rightarrow> Inl e
          | Inr (test_loss, correct) \<Rightarrow>
              if num_batches = 0 then Inl ZeroDivisionError
              else if size = 0 then Inl ZeroDivisionError
              else Inr (correct / real size * 100, test_loss / real num_batches)))"

section \<open>The epoch loop\<close>

text \<open>
  One row per \<^verbatim>\<open>print\<close> of the loop: epoch number, training loss, test loss, percentage
  correctly classified.
\<close>

type_synonym row = "nat \<times> real \<times> real \<times> real"

definition epochs :: nat where
  "epochs = 50"

text \<open>
  The loop over \<^verbatim>\<open>range(epochs)\<close>.  \<open>perms\<close> gives the order that the shuffling training
  loader draws in each epoch.  An exception in \<^verbatim>\<open>train\<close> or \<^verbatim>\<open>test\<close> ends the cell.
\<close>

fun epoch_loop ::
  "env \<Rightarrow> DataLoader \<Rightarrow> DataLoader \<Rightarrow> (nat \<Rightarrow> nat list) \<Rightarrow> nat list \<Rightarrow>
   NeuralNetwork \<times> real \<times> row list \<Rightarrow> error + NeuralNetwork \<times> real \<times> row list" where
  "epoch_loop E tr va perms [] st = Inr st"
| "epoch_loop E tr va perms (epoch # es) (model, best_score, out) =
     (case train E tr (perms epoch) model of
        (model, Inl e) \<Rightarrow> Inl e
      | (model, Inr train_loss) \<Rightarrow>
     (case test E va [] model of
        (model, Inl e) \<Rightarrow> Inl e
      | (model, Inr (test_correct, test_loss)) \<Rightarrow>
          epoch_loop E tr va perms es
            (model, max best_score test_correct,
             out @ [(epoch + 1, train_loss, test_loss, test_correct)])))"

definition run_epochs ::
  "env \<Rightarrow> DataLoader \<Rightarrow> DataLoader \<Rightarrow> (nat \<Rightarrow> nat list) \<Rightarrow> NeuralNetwork \<Rightarrow>
   error + NeuralNetwork \<times> real \<times> row list" where
  "run_epochs E tr va perms model = epoch_loop E tr va perms [0..<epochs] (model, 0, [])"

section \<open>What the notebook runs on\<close>

text \<open>
  The datasets are image folders read through \<^verbatim>\<open>Resize((64,64))\<close> and \<^verbatim>\<open>ToTensor()\<close>:
  every image is a tensor of shape 3 by 64 by 64, and every label names one of the 8
  classes that the last layer scores.
\<close>

definition image_folder :: "sample list \<Rightarrow> bool" where
  "image_folder ds =
     list_all (\<lambda>s. shape (fst s) = [3, 64, 64] \<and> length (data (fst s)) = 3 * 64 * 64 \<and> snd s < 8) ds"

text \<open>
  The notebook calls \<^verbatim>\<open>train\<close> and \<^verbatim>\<open>test\<close> with an instance of one of the two classes and
  with \<^verbatim>\<open>nn.CrossEntropyLoss()\<close>.
\<close>

definition notebook_env :: "env \<Rightarrow> bool" where
  "notebook_env E \<longleftrightarrow>
     (fwd E = forward \<or> fwd E = forward_exercise) \<and> loss_fn E = CrossEntropyLoss"

text \<open>
  The two figures in the words of the specification: the percentage of the samples whose
  highest score is at the true label, and the mean of the loss of the samples.
\<close>

definition accuracy :: "NeuralNetwork \<Rightarrow> sample list \<Rightarrow> real" where
  "accuracy m ds =
     100 * real (length (filter (\<lambda>s. argmax (scores m (data (fst s))) = snd s) ds))
       / real (length ds)"

definition mean_loss :: "NeuralNetwork \<Rightarrow> sample list \<Rightarrow> real" where
  "mean_loss m ds =
     sum_list (map (\<lambda>s. cross_entropy (scores m (data (fst s))) (snd s)) ds) / real (length ds)"

subsection \<open>The run, epoch by epoch\<close>

text \<open>
  The run in the words of the specification.  A training step on a batch: the images
  stacked into one tensor, the gradient of the batch loss at the current parameters, and
  the update of every parameter against a freshly reset gradient buffer.
\<close>

definition batch_tensor :: "sample list \<Rightarrow> Tensor" where
  "batch_tensor b =
     \<lparr>shape = [length b, 3, 64, 64], data = concat (map (\<lambda>s. data (fst s)) b)\<rparr>"

definition sgd_update :: "env \<Rightarrow> NeuralNetwork \<Rightarrow> sample list \<Rightarrow> NeuralNetwork" where
  "sgd_update E m b =
     step (optimizer E)
       (backward (autograd E (parameter_values m) (batch_tensor b) (map snd b))
          (zero_grad (optimizer E) m))"

text \<open>
  A full training pass: one training step per batch, batch after batch, each on the model
  that the step before left.  Its losses are the mean losses of the batches, each under
  the model that its step started from.
\<close>

fun sgd_pass :: "env \<Rightarrow> NeuralNetwork \<Rightarrow> sample list list \<Rightarrow> NeuralNetwork" where
  "sgd_pass E m [] = m"
| "sgd_pass E m (b # bs) = sgd_pass E (sgd_update E m b) bs"

fun pass_losses :: "env \<Rightarrow> NeuralNetwork \<Rightarrow> sample list list \<Rightarrow> real list" where
  "pass_losses E m [] = []"
| "pass_losses E m (b # bs) = mean_loss m b # pass_losses E (sgd_update E m b) bs"

text \<open>
  The model after \<open>k\<close> epochs: each epoch is a full training pass over the batches that the
  training loader yields in that epoch, in training mode, followed by the evaluation,
  which leaves the model in evaluation mode.
\<close>

primrec model_after ::
  "env \<Rightarrow> DataLoader \<Rightarrow> (nat \<Rightarrow> nat list) \<Rightarrow> NeuralNetwork \<Rightarrow> nat \<Rightarrow> NeuralNetwork" where
  "model_after E tr perms m 0 = m"
| "model_after E tr perms m (Suc k) =
     (sgd_pass E ((model_after E tr perms m k)\<lparr>training := True\<rparr>) (batches tr (perms k)))
       \<lparr>training := False\<rparr>"

text \<open>
  What epoch \<open>k\<close> (counted from 0) prints: its number, the mean of the losses of its training
  pass, and the mean batch loss and the accuracy of the trained model on the validation
  split.
\<close>

definition epoch_row ::
  "env \<Rightarrow> DataLoader \<Rightarrow> DataLoader \<Rightarrow> (nat \<Rightarrow> nat list) \<Rightarrow> NeuralNetwork \<Rightarrow> nat \<Rightarrow> row" where
  "epoch_row E tr va perms m k =
     (let m0 = (model_after E tr perms m k)\<lparr>training := True\<rparr>;
          bs = batches tr (perms k);
          m1 = sgd_pass E m0 bs
      in (k + 1,
          sum_list (pass_losses E m0 bs) / real (length bs),
          sum_list (map (mean_loss m1) (batches va [])) / real (length (batches va [])),
          accuracy m1 (dataset va)))"

text \<open>The validation accuracy in a printed row.\<close>

definition test_correct_of :: "row \<Rightarrow> real" where
  "test_correct_of r = snd (snd (snd r))"

section \<open>A small run\<close>

text \<open>
  Concrete inputs for the examples below: a black image, a network whose weights are zero
  and whose last bias favours class 0, and the validation loader of the notebook over a
  folder of 33 images, 32 of class 0 and one of class 1.
\<close>

definition zero_image :: Tensor where
  "zero_image = \<lparr>shape = [3, 64, 64], data = replicate 12288 0\<rparr>"

definition example_model :: NeuralNetwork where
  "example_model =
     NeuralNetwork_init (replicate (64 * 12288) 0) (replicate 64 0)
       (replicate (64 * 64) 0) (replicate 64 0)
       (replicate (8 * 64) 0) [1, 0, 0, 0, 0, 0, 0, 0]"

definition example_env :: env where
  "example_env =
     \<lparr>fwd = forward, loss_fn = CrossEntropyLoss,
      optimizer = \<lparr>lr = 1 / 100, set_to_none = False\<rparr>,
      autograd = (\<lambda>ps X y n. map (\<lambda>_. 1) (ps n))\<rparr>"

definition example_loader :: DataLoader where
  "example_loader = val_dataloader (replicate 32 (zero_image, 0) @ [(zero_image, 1)])"

section \<open>Single-precision evaluation\<close>

text \<open>
  The tensors of the framework hold float32 values, and what \<^verbatim>\<open>test\<close> returns are Python
  floats.  A floating-point value is a finite number, an infinity or NaN.  Rounding is not
  modelled: a finite result is the exact real number.  A result whose magnitude is beyond
  the largest finite value \<open>mx\<close> of its format is an infinity, and infinities and NaN
  follow IEEE 754.
\<close>

datatype float = Fin real | PInf | NInf | NaN

definition f32_max :: real where
  "f32_max = (2 - 1 / 2 ^ 23) * 2 ^ 127"


definition fl :: "real \<Rightarrow> real \<Rightarrow> float" where
  "fl mx r = (if mx < r then PInf else if r < - mx then NInf else Fin r)"

fun fneg :: "float \<Rightarrow> float" where
  "fneg (Fin a) = Fin (- a)"
| "fneg PInf = NInf"
| "fneg NInf = PInf"
| "fneg NaN = NaN"

fun fadd :: "real \<Rightarrow> float \<Rightarrow> float \<Rightarrow> float" where
  "fadd mx (Fin a) (Fin b) = fl mx (a + b)"
| "fadd mx (Fin a) PInf = PInf"
| "fadd mx (Fin a) NInf = NInf"
| "fadd mx PInf (Fin b) = PInf"
| "fadd mx PInf PInf = PInf"
| "fadd mx PInf NInf = NaN"
| "fadd mx NInf (Fin b) = NInf"
| "fadd mx NInf PInf = NaN"
| "fadd mx NInf NInf = NInf"
| "fadd mx NaN b = NaN"
| "fadd mx a NaN = NaN"

definition fsub :: "real \<Rightarrow> float \<Rightarrow> float \<Rightarrow> float" where
  "fsub mx a b = fadd mx a (fneg b)"

fun fmul :: "real \<Rightarrow> float \<Rightarrow> float \<Rightarrow> float" where
  "fmul mx (Fin a) (Fin b) = fl mx (a * b)"
| "fmul mx (Fin a) PInf = (if a = 0 then NaN else if 0 < a then PInf else NInf)"
| "fmul mx (Fin a) NInf = (if a = 0 then NaN else if 0 < a then NInf else PInf)"
| "fmul mx PInf (Fin b) = (if b = 0 then NaN else if 0 < b then PInf else NInf)"
| "fmul mx NInf (Fin b) = (if b = 0 then NaN else if 0 < b then NInf else PInf)"
| "fmul mx PInf PInf = PInf"
| "fmul mx PInf NInf = NInf"
| "fmul mx NInf PInf = NInf"
| "fmul mx NInf NInf = PInf"
| "fmul mx NaN b = NaN"
| "fmul mx a NaN = NaN"






text \<open>A sum, accumulated from the left.\<close>

definition fsum :: "real \<Rightarrow> float list \<Rightarrow> float" where
  "fsum mx xs = foldl (fadd mx) (Fin 0) xs"

text \<open>The comparisons \<^verbatim>\<open>x >= 0\<close> and \<^verbatim>\<open>x <= 0\<close>: false on NaN.\<close>

fun fge0 :: "float \<Rightarrow> bool" where
  "fge0 (Fin a) = (0 \<le> a)"
| "fge0 PInf = True"
| "fge0 NInf = False"
| "fge0 NaN = False"



text \<open>Auxiliary comparisons: at least 1, at most a finite \<open>v\<close>, and at most another value.\<close>

fun fge1 :: "float \<Rightarrow> bool" where
  "fge1 (Fin a) = (1 \<le> a)"
| "fge1 PInf = True"
| "fge1 NInf = False"
| "fge1 NaN = False"



text \<open>The order that \<^verbatim>\<open>argmax\<close> searches by: NaN counts as the largest value.\<close>

fun fless :: "float \<Rightarrow> float \<Rightarrow> bool" where
  "fless NaN b = False"
| "fless a NaN = True"
| "fless PInf b = False"
| "fless a PInf = True"
| "fless a NInf = False"
| "fless NInf b = True"
| "fless (Fin a) (Fin b) = (a < b)"

fun fargmax :: "float list \<Rightarrow> nat" where
  "fargmax [] = 0"
| "fargmax [x] = 0"
| "fargmax (x # xs) = (let j = fargmax xs in if fless x (xs ! j) then Suc j else 0)"

text \<open>
  A float32 tensor, and the forward pass of the class on it.  The parameters of the model
  and the elements of the images are finite float32 values, given by the real numbers
  that the records above hold; what is computed from them may be infinite or NaN.
\<close>

record FTensor =
  fshape :: "nat list"
  fdata :: "float list"



definition dot_f32 :: "real list \<Rightarrow> float list \<Rightarrow> float" where
  "dot_f32 ws xs = fsum f32_max (map2 (\<lambda>w x. fmul f32_max (Fin w) x) ws xs)"

definition affine_f32 :: "nat \<Rightarrow> nat \<Rightarrow> Linear \<Rightarrow> float list \<Rightarrow> float list" where
  "affine_f32 n_in n_out l row =
     map (\<lambda>j. fadd f32_max (dot_f32 (take n_in (drop (j * n_in) (pdata (weight l)))) row)
                (Fin (pdata (bias l) ! j)))
       [0..<n_out]"


text \<open>\<^verbatim>\<open>nn.ReLU()\<close> on float32: NaN stays NaN.\<close>

fun relu_f32 :: "float \<Rightarrow> float" where
  "relu_f32 (Fin a) = Fin (max 0 a)"
| "relu_f32 PInf = PInf"
| "relu_f32 NInf = Fin 0"
| "relu_f32 NaN = NaN"






text \<open>The float32 scores of one flattened sample.\<close>

definition scores_f32 :: "NeuralNetwork \<Rightarrow> float list \<Rightarrow> float list" where
  "scores_f32 m row =
     affine_f32 64 8 (last_0 m)
       (map relu_f32 (affine_f32 64 64 (stack_2 m)
         (map relu_f32 (affine_f32 (3 * 64 * 64) 64 (stack_0 m) row))))"



definition count_correct_f32 :: "FTensor \<Rightarrow> nat list \<Rightarrow> nat" where
  "count_correct_f32 preds y =
     length (filter (\<lambda>(row, t). fargmax row = t)
               (zip (chunks (last (fshape preds)) (fdata preds)) y))"





section \<open>Batches\<close>

lemma chunks_Nil [simp]: "chunks n [] = []"
  by (simp add: chunks.simps)

lemma chunks_0 [simp]: "chunks 0 xs = []"
  by (simp add: chunks.simps)

lemma chunks_step: "0 < n \<Longrightarrow> xs \<noteq> [] \<Longrightarrow> chunks n xs = take n xs # chunks n (drop n xs)"
  by (subst chunks.simps) simp

lemma concat_chunks: "0 < n \<Longrightarrow> concat (chunks n xs) = xs"
proof (induction n xs rule: chunks.induct)
  case (1 n xs)
  show ?case
  proof (cases "xs = []")
    case True
    then show ?thesis by simp
  next
    case False
    with 1 show ?thesis by (simp add: chunks_step)
  qed
qed

lemma length_chunks: "0 < n \<Longrightarrow> length (chunks n xs) = (length xs + n - 1) div n"
proof (induction n xs rule: chunks.induct)
  case (1 n xs)
  show ?case
  proof (cases "xs = []")
    case True
    with 1(2) show ?thesis by simp
  next
    case False
    then have pos: "0 < length xs" by simp
    have IH: "length (chunks n (drop n xs)) = (length xs - n + n - 1) div n"
      using 1 False by simp
    show ?thesis
    proof (cases "length xs \<le> n")
      case True
      from pos obtain k where k: "length xs = Suc k" by (cases xs) auto
      have "(length xs + n - 1) div n = 1"
      proof (rule div_nat_eqI)
        show "n * 1 \<le> length xs + n - 1" by (simp add: k)
        show "length xs + n - 1 < n * Suc 1" using True by (simp add: k)
      qed
      with True IH 1(2) False show ?thesis by (simp add: chunks_step)
    next
      case F: False
      have e1: "length xs + n - 1 = (length xs - 1) + n" using pos by linarith
      have e2: "((length xs - 1) + n) div n = Suc ((length xs - 1) div n)"
        using 1(2) by simp
      have e3: "length xs - n + n - 1 = length xs - 1" using F by linarith
      have "length (chunks n xs) = Suc (length (chunks n (drop n xs)))"
        using 1(2) False by (simp add: chunks_step)
      also have "\<dots> = Suc ((length xs - 1) div n)"
        by (simp only: IH e3)
      also have "\<dots> = (length xs + n - 1) div n"
        by (simp only: e1 e2)
      finally show ?thesis .
    qed
  qed
qed

lemma chunks_sizes: "0 < n \<Longrightarrow> b \<in> set (chunks n xs) \<Longrightarrow> b \<noteq> [] \<and> length b \<le> n"
proof (induction n xs arbitrary: b rule: chunks.induct)
  case (1 n xs)
  show ?case
  proof (cases "xs = []")
    case True
    with 1(3) show ?thesis by simp
  next
    case False
    with 1(2,3) have "b = take n xs \<or> b \<in> set (chunks n (drop n xs))"
      by (simp add: chunks_step)
    then show ?thesis
    proof
      assume "b = take n xs"
      with False 1(2) show ?thesis by simp
    next
      assume "b \<in> set (chunks n (drop n xs))"
      with 1(1)[of b] 1(2) False show ?thesis by simp
    qed
  qed
qed

lemma chunks_butlast_full: "0 < n \<Longrightarrow> b \<in> set (butlast (chunks n xs)) \<Longrightarrow> length b = n"
proof (induction n xs arbitrary: b rule: chunks.induct)
  case (1 n xs)
  show ?case
  proof (cases "xs = []")
    case True
    with 1(3) show ?thesis by simp
  next
    case False
    show ?thesis
    proof (cases "chunks n (drop n xs) = []")
      case True
      with 1(2,3) False show ?thesis by (simp add: chunks_step)
    next
      case ne: False
      then have "drop n xs \<noteq> []" by auto
      then have len: "n < length xs" by simp
      from 1(2,3) False ne have "b = take n xs \<or> b \<in> set (butlast (chunks n (drop n xs)))"
        by (simp add: chunks_step)
      then show ?thesis
      proof
        assume "b = take n xs"
        with len show ?thesis by simp
      next
        assume "b \<in> set (butlast (chunks n (drop n xs)))"
        with 1(1)[of b] 1(2) False show ?thesis by simp
      qed
    qed
  qed
qed

lemma ceiling_div_nat:
  assumes n: "0 < n"
  shows "nat \<lceil>real k / real n\<rceil> = (k + n - 1) div n"
proof -
  define q where "q = (k + n - 1) div n"
  have dm: "q * n + (k + n - 1) mod n = k + n - 1"
    unfolding q_def by simp
  have ml: "(k + n - 1) mod n < n" using n by simp
  have lo: "k \<le> q * n" using dm ml by linarith
  have hi: "q * n < k + n" using dm n by linarith
  have "real k \<le> real (q * n)" using lo by (rule of_nat_mono)
  then have a: "real k / real n \<le> real q"
    using n by (simp add: field_simps)
  have "real (q * n) < real (k + n)" using hi by (simp only: of_nat_less_iff)
  then have b: "real q - 1 < real k / real n"
    using n by (simp add: field_simps)
  have "\<lceil>real k / real n\<rceil> = int q"
    by (rule ceiling_unique) (use a b in simp_all)
  then show ?thesis by (simp add: q_def)
qed

section \<open>The forward pass, sample by sample\<close>

lemma chunks_append_full:
  "0 < n \<Longrightarrow> length xs = n \<Longrightarrow> chunks n (xs @ ys) = xs # chunks n ys"
  by (subst chunks.simps) auto

lemma chunks_concat:
  "0 < n \<Longrightarrow> (\<And>ys. ys \<in> set yss \<Longrightarrow> length ys = n) \<Longrightarrow> chunks n (concat yss) = yss"
  by (induction yss) (simp_all add: chunks_append_full)

lemma length_affine [simp]: "length (affine n_in n_out l row) = n_out"
  by (simp add: affine_def)

lemma length_scores [simp]: "length (scores m row) = 8"
  by (simp add: scores_def)

lemma map_concat_map: "map f (concat (map g xs)) = concat (map (\<lambda>x. map f (g x)) xs)"
  by (induction xs) simp_all

lemma chunks_concat_map:
  "0 < n \<Longrightarrow> (\<And>x. length (f x) = n) \<Longrightarrow> chunks n (concat (map f xs)) = map f xs"
  by (rule chunks_concat) auto

lemma Linear_forward_rows:
  "shape x = [k, n_in] \<Longrightarrow>
   Linear_forward n_in n_out l x =
     Inr \<lparr>shape = [k, n_out], data = concat (map (affine n_in n_out l) (chunks n_in (data x)))\<rparr>"
  by (simp add: Linear_forward_def)

lemma linear_relu_stack_rows:
  assumes "shape x = [k, 12288]"
  shows "linear_relu_stack m x =
     Inr \<lparr>shape = [k, 64],
          data = concat (map (\<lambda>row. map (max 0) (affine 64 64 (stack_2 m)
                   (map (max 0) (affine 12288 64 (stack_0 m) row))))
                   (chunks 12288 (data x)))\<rparr>"
proof -
  let ?h1 = "\<lambda>row. map (max 0) (affine 12288 64 (stack_0 m) row)"
  let ?rows = "chunks 12288 (data x)"
  have c: "chunks 64 (concat (map ?h1 ?rows)) = map ?h1 ?rows"
    by (rule chunks_concat_map) simp_all
  have a1: "Linear_forward 12288 64 (stack_0 m) x =
      Inr \<lparr>shape = [k, 64], data = concat (map (affine 12288 64 (stack_0 m)) ?rows)\<rparr>"
    by (rule Linear_forward_rows[OF assms])
  have a2: "ReLU \<lparr>shape = [k, 64], data = concat (map (affine 12288 64 (stack_0 m)) ?rows)\<rparr>
      = Inr \<lparr>shape = [k, 64], data = concat (map ?h1 ?rows)\<rparr>"
    by (simp add: ReLU_def map_concat_map)
  have a3: "Linear_forward 64 64 (stack_2 m) \<lparr>shape = [k, 64], data = concat (map ?h1 ?rows)\<rparr>
      = Inr \<lparr>shape = [k, 64], data = concat (map (\<lambda>row. affine 64 64 (stack_2 m) (?h1 row)) ?rows)\<rparr>"
    by (simp add: Linear_forward_rows c o_def)
  have a4: "ReLU \<lparr>shape = [k, 64], data = concat (map (\<lambda>row. affine 64 64 (stack_2 m) (?h1 row)) ?rows)\<rparr>
      = Inr \<lparr>shape = [k, 64], data = concat (map (\<lambda>row. map (max 0) (affine 64 64 (stack_2 m) (?h1 row))) ?rows)\<rparr>"
    by (simp add: ReLU_def map_concat_map)
  show ?thesis
    unfolding linear_relu_stack_def
    by (simp add: a1 a2 a3 a4)
qed

lemma scores_fun:
  "scores m = (\<lambda>row. affine 64 8 (last_0 m) (map (max 0) (affine 64 64 (stack_2 m)
                 (map (max 0) (affine 12288 64 (stack_0 m) row)))))"
  by (rule ext) (simp add: scores_def)

lemma forward_rows:
  assumes "shape x = k # s" "s \<noteq> []" "prod_list s = 12288"
  shows "forward m x =
     Inr \<lparr>shape = [k, 8], data = concat (map (scores m) (chunks 12288 (data x)))\<rparr>"
proof -
  let ?x1 = "x\<lparr>shape := [k, 12288]\<rparr>"
  have f: "flatten 1 x = Inr ?x1"
    using assms by (cases s) (simp_all add: flatten_def)
  let ?h2 = "\<lambda>row. map (max 0) (affine 64 64 (stack_2 m)
                   (map (max 0) (affine 12288 64 (stack_0 m) row)))"
  let ?x2 = "\<lparr>shape = [k, 64], data = concat (map ?h2 (chunks 12288 (data x)))\<rparr>"
  have s: "linear_relu_stack m ?x1 = Inr ?x2"
    using linear_relu_stack_rows[of ?x1 k m] by simp
  have c: "chunks 64 (concat (map ?h2 (chunks 12288 (data x))))
             = map ?h2 (chunks 12288 (data x))"
    by (rule chunks_concat_map) simp_all
  have l: "last_layer m ?x2 =
     Inr \<lparr>shape = [k, 8], data = concat (map (scores m) (chunks 12288 (data x)))\<rparr>"
    unfolding last_layer_def
    by (simp add: Linear_forward_rows c scores_fun o_def)
  show ?thesis
    unfolding forward_def f by (simp add: s l)
qed

lemma flatten_rank: "flatten 1 x = Inr y \<Longrightarrow> length (shape y) = 2"
  by (auto simp: flatten_def split: if_splits)

lemma Linear_forward_rank:
  "Linear_forward n_in n_out l x = Inr y \<Longrightarrow> length (shape y) = length (shape x)"
  by (auto simp: Linear_forward_def split: if_splits)

lemma ReLU_shape: "ReLU x = Inr y \<Longrightarrow> shape y = shape x"
  by (auto simp: ReLU_def)

lemma linear_relu_stack_rank:
  "linear_relu_stack m x = Inr y \<Longrightarrow> length (shape y) = length (shape x)"
  unfolding linear_relu_stack_def
  by (auto split: sum.splits dest!: Linear_forward_rank ReLU_shape)

lemma flatten_rank2_id: "length (shape x) = 2 \<Longrightarrow> flatten 1 x = Inr x"
proof -
  assume "length (shape x) = 2"
  then obtain a b where "shape x = [a, b]"
    by (cases "shape x"; cases "tl (shape x)") auto
  then show ?thesis by (simp add: flatten_def)
qed

lemma forward_exercise_eq: "forward_exercise m x = forward m x"
proof (cases "flatten 1 x")
  case (Inl e)
  then show ?thesis by (simp add: forward_exercise_def forward_def)
next
  case (Inr x1)
  note x1 = this
  show ?thesis
  proof (cases "linear_relu_stack m x1")
    case (Inl e)
    with x1 show ?thesis by (simp add: forward_exercise_def forward_def)
  next
    case (Inr x2)
    have "length (shape x2) = 2"
      using linear_relu_stack_rank[OF Inr] flatten_rank[OF x1] by simp
    then have "flatten 1 x2 = Inr x2" by (rule flatten_rank2_id)
    with x1 Inr show ?thesis by (simp add: forward_exercise_def forward_def)
  qed
qed

section \<open>One pass of test\<close>

lemma image_folder_Cons [simp]:
  "image_folder (s # ds) \<longleftrightarrow>
     shape (fst s) = [3, 64, 64] \<and> length (data (fst s)) = 12288 \<and> snd s < 8 \<and> image_folder ds"
  by (simp add: image_folder_def)

lemma image_folder_Nil [simp]: "image_folder []"
  by (simp add: image_folder_def)

lemma image_folder_iff:
  "image_folder ds \<longleftrightarrow>
     (\<forall>s \<in> set ds. shape (fst s) = [3, 64, 64] \<and> length (data (fst s)) = 12288 \<and> snd s < 8)"
  by (induction ds) auto

lemma image_folder_take: "image_folder ds \<Longrightarrow> image_folder (take n ds)"
  by (auto simp: image_folder_iff dest: in_set_takeD)

lemma image_folder_drop: "image_folder ds \<Longrightarrow> image_folder (drop n ds)"
  by (auto simp: image_folder_iff dest: in_set_dropD)

lemma collate_image_folder:
  assumes "image_folder b" "b \<noteq> []"
  shows "collate b =
     Inr (\<lparr>shape = [length b, 3, 64, 64], data = concat (map (\<lambda>s. data (fst s)) b)\<rparr>, map snd b)"
proof -
  from assms(2) obtain s b' where b: "b = s # b'" by (cases b) auto
  have "list_all (\<lambda>s'. shape (fst s') = shape (fst s)) b"
    using assms(1) unfolding b by (auto simp: image_folder_iff list_all_iff)
  moreover have "shape (fst s) = [3, 64, 64]" using assms(1) unfolding b by simp
  ultimately show ?thesis
    unfolding collate_def b by simp
qed

lemma chunks_data_image_folder:
  "image_folder b \<Longrightarrow> chunks 12288 (concat (map (\<lambda>s. data (fst s)) b)) = map (\<lambda>s. data (fst s)) b"
  by (rule chunks_concat) (auto simp: image_folder_iff)

lemma forward_batch:
  assumes "image_folder b"
  shows "forward m \<lparr>shape = [length b, 3, 64, 64], data = concat (map (\<lambda>s. data (fst s)) b)\<rparr> =
     Inr \<lparr>shape = [length b, 8], data = concat (map (\<lambda>s. scores m (data (fst s))) b)\<rparr>"
  by (subst forward_rows[where k = "length b" and s = "[3, 64, 64]"])
     (simp_all add: chunks_data_image_folder[OF assms] o_def)

lemma chunks_scores:
  "chunks 8 (concat (map (\<lambda>s. scores m (data (fst s))) b)) = map (\<lambda>s. scores m (data (fst s))) b"
  by (rule chunks_concat_map) simp_all

lemma map2_map_same: "map2 f (map g xs) (map h xs) = map (\<lambda>x. f (g x) (h x)) xs"
  by (induction xs) simp_all

lemma zip_map_same: "zip (map g xs) (map h xs) = map (\<lambda>x. (g x, h x)) xs"
  by (induction xs) simp_all

lemma CrossEntropyLoss_batch:
  assumes "image_folder b" "b \<noteq> []"
  shows "CrossEntropyLoss
           \<lparr>shape = [length b, 8], data = concat (map (\<lambda>s. scores m (data (fst s))) b)\<rparr>
           (map snd b) = Inr (mean_loss m b)"
proof -
  have "list_all (\<lambda>t. t < 8) (map snd b)"
    using assms(1) by (auto simp: image_folder_iff list_all_iff)
  then show ?thesis
    using assms(2)
    by (simp add: CrossEntropyLoss_def chunks_scores zip_map_same mean_loss_def o_def)
qed

lemma count_correct_batch:
  "count_correct \<lparr>shape = [length b, 8], data = concat (map (\<lambda>s. scores m (data (fst s))) b)\<rparr>
     (map snd b) = length (filter (\<lambda>s. argmax (scores m (data (fst s))) = snd s) b)"
proof -
  have "length (filter (\<lambda>(row, t). argmax row = t) (map (\<lambda>s. (scores m (data (fst s)), snd s)) b))
      = length (filter (\<lambda>s. argmax (scores m (data (fst s))) = snd s) b)"
    by (induction b) simp_all
  then show ?thesis
    by (simp add: count_correct_def chunks_scores zip_map_same)
qed

lemma forward_exercise_fun: "forward_exercise = forward"
  by (intro ext) (rule forward_exercise_eq)

lemma fwd_notebook: "notebook_env E \<Longrightarrow> fwd E = forward"
  by (auto simp: notebook_env_def forward_exercise_fun)

lemma loss_notebook: "notebook_env E \<Longrightarrow> loss_fn E = CrossEntropyLoss"
  by (simp add: notebook_env_def)

lemma test_loop_batches:
  assumes E: "notebook_env E"
  shows "(\<And>b. b \<in> set bs \<Longrightarrow> image_folder b \<and> b \<noteq> []) \<Longrightarrow>
     test_loop E m bs (l, c) =
       Inr (l + sum_list (map (mean_loss m) bs),
            c + real (length (filter (\<lambda>s. argmax (scores m (data (fst s))) = snd s) (concat bs))))"
proof (induction bs arbitrary: l c)
  case Nil
  then show ?case by simp
next
  case (Cons b bs)
  have b: "image_folder b" "b \<noteq> []" using Cons.prems[of b] by simp_all
  have rest: "\<And>b'. b' \<in> set bs \<Longrightarrow> image_folder b' \<and> b' \<noteq> []"
    using Cons.prems by simp
  show ?case
    by (simp add: collate_image_folder[OF b] fwd_notebook[OF E] loss_notebook[OF E]
        forward_batch[OF b(1)] CrossEntropyLoss_batch[OF b] count_correct_batch
        Cons.IH[OF rest] algebra_simps)
qed

lemma batches_visit: "batches dl perm = chunks (batch_size dl) (visit_order dl perm)"
  by (simp add: batches_def)

lemma mset_visit_order:
  assumes "sampler_order dl perm"
  shows "mset (visit_order dl perm) = mset (dataset dl)"
proof (cases "shuffle dl")
  case True
  with assms have p: "mset perm = mset [0..<length (dataset dl)]"
    by (simp add: sampler_order_def)
  have "mset (map (\<lambda>i. dataset dl ! i) perm) = image_mset (\<lambda>i. dataset dl ! i) (mset perm)"
    by simp
  also have "\<dots> = mset (map (\<lambda>i. dataset dl ! i) [0..<length (dataset dl)])"
    by (simp only: p mset_map)
  also have "\<dots> = mset (dataset dl)"
    by (simp only: map_nth)
  finally show ?thesis using True by (simp add: visit_order_def)
next
  case False
  then show ?thesis by (simp add: visit_order_def)
qed

lemma length_visit_order:
  "sampler_order dl perm \<Longrightarrow> length (visit_order dl perm) = length (dataset dl)"
  using mset_visit_order[of dl perm] by (metis size_mset)

lemma set_visit_order:
  "sampler_order dl perm \<Longrightarrow> set (visit_order dl perm) = set (dataset dl)"
  using mset_visit_order[of dl perm] by (metis set_mset_mset)

lemma length_filter_mset: "mset xs = mset ys \<Longrightarrow> length (filter P xs) = length (filter P ys)"
  by (metis mset_filter size_mset)

lemma image_folder_visit_order:
  "sampler_order dl perm \<Longrightarrow> image_folder (dataset dl) \<Longrightarrow> image_folder (visit_order dl perm)"
  by (simp add: image_folder_iff set_visit_order)

lemma set_chunks: "0 < n \<Longrightarrow> b \<in> set (chunks n xs) \<Longrightarrow> set b \<subseteq> set xs"
proof -
  assume n: "0 < n" and b: "b \<in> set (chunks n xs)"
  have "set b \<subseteq> set (concat (chunks n xs))" using b by auto
  then show ?thesis by (simp only: concat_chunks[OF n])
qed

lemma image_folder_chunks:
  "0 < n \<Longrightarrow> image_folder xs \<Longrightarrow> b \<in> set (chunks n xs) \<Longrightarrow> image_folder b"
  using set_chunks[of n b xs] by (auto simp: image_folder_iff)

lemma len_DataLoader_batches:
  "0 < batch_size dl \<Longrightarrow> sampler_order dl perm \<Longrightarrow>
   len_DataLoader dl = length (batches dl perm)"
  by (simp add: len_DataLoader_def batches_visit length_chunks length_visit_order)

lemma len_DataLoader_pos:
  "0 < batch_size dl \<Longrightarrow> dataset dl \<noteq> [] \<Longrightarrow> 0 < len_DataLoader dl"
proof -
  assume B: "0 < batch_size dl" and ne: "dataset dl \<noteq> []"
  then obtain k where k: "length (dataset dl) = Suc k" by (cases "dataset dl") auto
  have "batch_size dl \<le> length (dataset dl) + batch_size dl - 1" by (simp add: k)
  then have "0 < (length (dataset dl) + batch_size dl - 1) div batch_size dl"
    using B by (simp only: div_greater_zero_iff)
  then show ?thesis by (simp add: len_DataLoader_def)
qed

lemma scores_training [simp]: "scores (m\<lparr>training := t\<rparr>) = scores m"
  by (rule ext) (simp add: scores_def)

lemma mean_loss_training [simp]: "mean_loss (m\<lparr>training := t\<rparr>) = mean_loss m"
  by (rule ext) (simp add: mean_loss_def)

lemma batches_ok:
  assumes "0 < batch_size dl" "sampler_order dl perm" "image_folder (dataset dl)"
    and "b \<in> set (batches dl perm)"
  shows "image_folder b \<and> b \<noteq> []"
  using assms image_folder_chunks[of "batch_size dl" "visit_order dl perm" b]
    chunks_sizes[of "batch_size dl" b "visit_order dl perm"]
  by (simp add: batches_visit image_folder_visit_order)

lemma test_value:
  assumes E: "notebook_env E"
    and B: "0 < batch_size dl"
    and P: "sampler_order dl perm"
    and I: "image_folder (dataset dl)"
    and N: "dataset dl \<noteq> []"
  shows "test E dl perm m =
     (m\<lparr>training := False\<rparr>,
      Inr (accuracy m (dataset dl),
           sum_list (map (mean_loss m) (batches dl perm)) / real (length (batches dl perm))))"
proof -
  let ?m = "m\<lparr>training := False\<rparr>"
  have ok: "\<And>b. b \<in> set (batches dl perm) \<Longrightarrow> image_folder b \<and> b \<noteq> []"
    using batches_ok[OF B P I] by blast
  have cc: "concat (batches dl perm) = visit_order dl perm"
    by (simp add: batches_visit concat_chunks[OF B])
  have loop: "test_loop E ?m (batches dl perm) (0, 0) =
      Inr (sum_list (map (mean_loss m) (batches dl perm)),
           real (length (filter (\<lambda>s. argmax (scores m (data (fst s))) = snd s) (dataset dl))))"
    using test_loop_batches[OF E ok, of "batches dl perm" ?m 0 0]
    by (simp add: cc length_filter_mset[OF mset_visit_order[OF P]])
  have nb: "len_DataLoader dl = length (batches dl perm)"
    by (rule len_DataLoader_batches[OF B P])
  have pos: "0 < length (batches dl perm)"
    using len_DataLoader_pos[OF B N] nb by simp
  show ?thesis
    unfolding test_def Let_def loop
    using pos N by (simp add: nb accuracy_def)
qed

section \<open>The claims\<close>

text \<open>
  Claim C2.  One pass of a data loader with a positive batch size \<open>B\<close> (32 in the
  notebook) over a dataset of \<open>S\<close> samples yields \<open>\<lceil>S / B\<rceil>\<close> batches; every batch but the
  last has exactly \<open>B\<close> samples, no batch is empty or larger than \<open>B\<close>, and the batches
  together hold every sample of the dataset exactly once, whether the loader shuffles or
  not.
\<close>

theorem batch_iterator_covers:
  assumes "0 < batch_size dl" and "sampler_order dl perm"
  shows "length (batches dl perm) = nat \<lceil>real (length (dataset dl)) / real (batch_size dl)\<rceil>
       \<and> (\<forall>b \<in> set (butlast (batches dl perm)). length b = batch_size dl)
       \<and> (\<forall>b \<in> set (batches dl perm). 0 < length b \<and> length b \<le> batch_size dl)
       \<and> mset (concat (batches dl perm)) = mset (dataset dl)"
proof (intro conjI ballI)
  show "length (batches dl perm) = nat \<lceil>real (length (dataset dl)) / real (batch_size dl)\<rceil>"
    using assms
    by (simp add: ceiling_div_nat batches_visit length_chunks length_visit_order)
next
  fix b assume "b \<in> set (butlast (batches dl perm))"
  then show "length b = batch_size dl"
    using chunks_butlast_full[OF assms(1)] by (simp add: batches_visit)
next
  fix b assume "b \<in> set (batches dl perm)"
  then have "b \<noteq> [] \<and> length b \<le> batch_size dl"
    using chunks_sizes[OF assms(1)] by (simp add: batches_visit)
  then show "0 < length b" and "length b \<le> batch_size dl" by simp_all
next
  show "mset (concat (batches dl perm)) = mset (dataset dl)"
    by (simp add: batches_visit concat_chunks[OF assms(1)] mset_visit_order[OF assms(2)])
qed

text \<open>A shuffling loader of the notebook over 33 samples: two batches.\<close>

theorem batch_iterator_covers_witness:
  "0 < batch_size (train_dataloader (replicate 33 (zero_image, 0)))
   \<and> sampler_order (train_dataloader (replicate 33 (zero_image, 0))) (rev [0..<33])
   \<and> length (batches (train_dataloader (replicate 33 (zero_image, 0))) (rev [0..<33])) = 2
   \<and> mset (concat (batches (train_dataloader (replicate 33 (zero_image, 0))) (rev [0..<33])))
       = mset (replicate 33 (zero_image, 0))"
proof -
  let ?dl = "train_dataloader (replicate 33 (zero_image, 0))"
  have B: "0 < batch_size ?dl" by (simp add: train_dataloader_def)
  have P: "sampler_order ?dl (rev [0..<33])"
    by (simp add: sampler_order_def train_dataloader_def)
  show ?thesis
    using B P batch_iterator_covers[OF B P]
    by (simp add: train_dataloader_def)
qed

text \<open>
  Claim C10.  The \<^verbatim>\<open>forward\<close> methods of the two class definitions agree on every model
  and every input, in the scores they return and in the inputs they refuse: the extra
  \<^verbatim>\<open>torch.flatten(x, 1)\<close> of the exercise cell meets a matrix and leaves it as it is.
\<close>

theorem forward_exercise_same: "forward_exercise m x = forward m x"
  by (rule forward_exercise_eq)

text \<open>
  Claim C8.  The validation pipeline \<^verbatim>\<open>test_transformations\<close> is the resize to 64 by 64
  followed by the conversion to a tensor, with no augmentation: it draws nothing from the
  random generator and leaves its state alone, so its output on an image is the same
  whatever that state is, and applying it again gives the same tensor.
\<close>

theorem test_transformations_deterministic:
  "fst (Compose fw test_transformations (img, g)) = fst (Compose fw test_transformations (img, g'))
   \<and> fst (Compose fw test_transformations (img, g)) = to_tensor fw (resize fw 64 64 img)
   \<and> snd (Compose fw test_transformations (img, g)) = g"
  by (simp add: Compose_def test_transformations_def base_transformations_def)


text \<open>
  The training pipeline of the walkthrough cell is the same pipeline; the one of the
  exercise cell draws a rotation angle and so depends on the generator.
\<close>

lemma train_transformations_walkthrough:
  "Compose fw train_transformations = Compose fw test_transformations"
  by (simp add: train_transformations_def test_transformations_def
      augmentation_transformations_def)

lemma train_transformations_exercise_draws:
  "Compose fw train_transformations_exercise (img, g) =
     (rotate fw (fst (uniform fw (- 45) 45 g)) (to_tensor fw (resize fw 64 64 img)),
      snd (uniform fw (- 45) 45 g))"
  by (simp add: Compose_def train_transformations_exercise_def base_transformations_def
      augmentation_transformations_exercise_def split: prod.splits)

text \<open>An empty dataset gives no batch, and a loader of length zero.\<close>

lemma sampler_order_empty: "dataset dl = [] \<Longrightarrow> sampler_order dl perm \<Longrightarrow> batches dl perm = []"
  by (auto simp: sampler_order_def batches_def visit_order_def)

lemma len_DataLoader_empty: "dataset dl = [] \<Longrightarrow> len_DataLoader dl = 0"
  by (cases "batch_size dl = 0") (simp_all add: len_DataLoader_def)

text \<open>
  Claim C9.  On a loader whose dataset is empty, \<^verbatim>\<open>train\<close> and \<^verbatim>\<open>test\<close> both end in a
  \<^verbatim>\<open>ZeroDivisionError\<close>, whatever the model, the loss function and the batch size are:
  neither returns metrics.
\<close>

theorem empty_split_raises:
  assumes "dataset dl = []" and "sampler_order dl perm"
  shows "snd (train E dl perm m) = Inl ZeroDivisionError
       \<and> snd (test E dl perm m) = Inl ZeroDivisionError"
  by (simp add: train_def test_def sampler_order_empty[OF assms] len_DataLoader_empty[OF assms(1)])

text \<open>The validation loader of the notebook over an empty folder.\<close>

theorem empty_split_raises_witness:
  "dataset (val_dataloader []) = [] \<and> sampler_order (val_dataloader []) []
   \<and> snd (train example_env (val_dataloader []) [] example_model) = Inl ZeroDivisionError
   \<and> snd (test example_env (val_dataloader []) [] example_model) = Inl ZeroDivisionError"
proof -
  have d: "dataset (val_dataloader []) = []" by (simp add: val_dataloader_def)
  have p: "sampler_order (val_dataloader []) []"
    by (simp add: sampler_order_def val_dataloader_def)
  show ?thesis
    using d p empty_split_raises[OF d p] by simp
qed

text \<open>The loop of \<^verbatim>\<open>test\<close> never looks at the optimizer or at the differentiation.\<close>

lemma test_loop_no_optimizer:
  "test_loop (E\<lparr>optimizer := opt, autograd := ag\<rparr>) m bs acc = test_loop E m bs acc"
proof (induction bs arbitrary: acc)
  case Nil
  then show ?case by simp
next
  case (Cons b bs)
  obtain l c where acc: "acc = (l, c)" by (cases acc)
  show ?case
    unfolding acc by (simp add: Cons.IH split: sum.splits prod.splits)
qed

text \<open>
  Claim C6.  A call of \<^verbatim>\<open>test\<close> changes nothing of the model but its mode flag: every
  parameter keeps its values and its gradient buffer, whether the call returns metrics or
  raises.  The call computes no gradient and makes no update: what it does is the same
  whatever the optimizer and the differentiation are.
\<close>

theorem test_leaves_parameters:
  "fst (test E dl perm m) = m\<lparr>training := False\<rparr>
   \<and> get_parameter (fst (test E dl perm m)) n = get_parameter m n
   \<and> parameter_values (fst (test E dl perm m)) = parameter_values m
   \<and> test (E\<lparr>optimizer := opt, autograd := ag\<rparr>) dl perm m = test E dl perm m"
proof -
  have f: "fst (test E dl perm m) = m\<lparr>training := False\<rparr>"
    by (simp add: test_def Let_def)
  have g: "\<And>k. get_parameter (m\<lparr>training := False\<rparr>) k = get_parameter m k"
    by (case_tac k) simp_all
  have h: "test (E\<lparr>optimizer := opt, autograd := ag\<rparr>) dl perm m = test E dl perm m"
    by (simp add: test_def test_loop_no_optimizer)
  show ?thesis
    by (simp add: f g h parameter_values_def fun_eq_iff)
qed

subsection \<open>The metrics of test\<close>

lemma dot_replicate_zero [simp]: "dot (replicate k 0) ys = 0"
proof (induction k arbitrary: ys)
  case 0
  then show ?case by (simp add: dot_def)
next
  case (Suc k)
  then show ?case by (cases ys) (simp_all add: dot_def)
qed

lemma map_nth_upt_take: "n \<le> length xs \<Longrightarrow> map (\<lambda>j. xs ! j) [0..<n] = take n xs"
  by (rule nth_equalityI) simp_all

lemma affine_zero_weight:
  assumes "pdata (weight l) = replicate k 0" and "n_out \<le> length (pdata (bias l))"
  shows "affine n_in n_out l row = take n_out (pdata (bias l))"
  using assms(2) by (simp add: affine_def assms(1) map_nth_upt_take)

lemma scores_example [simp]: "scores example_model row = [1, 0, 0, 0, 0, 0, 0, 0]"
proof -
  have "affine 64 8 (last_0 example_model) h = [1, 0, 0, 0, 0, 0, 0, 0]" for h
    by (subst affine_zero_weight[where k = "8 * 64"])
       (simp_all add: example_model_def NeuralNetwork_init_def)
  then show ?thesis by (simp add: scores_def)
qed

lemma dataset_example:
  "dataset example_loader = replicate 32 (zero_image, 0) @ [(zero_image, 1)]"
  by (simp add: example_loader_def val_dataloader_def)

lemma batch_size_example: "0 < batch_size example_loader"
  by (simp add: example_loader_def val_dataloader_def)

lemma nonempty_example: "dataset example_loader \<noteq> []"
  by (simp add: dataset_example)

lemma image_folder_example: "image_folder (dataset example_loader)"
  by (simp add: dataset_example image_folder_iff zero_image_def)

lemma notebook_env_example: "notebook_env example_env"
  by (simp add: notebook_env_def example_env_def)

lemma sampler_order_example: "sampler_order example_loader []"
  by (simp add: sampler_order_def example_loader_def val_dataloader_def)

lemma batches_example:
  "batches example_loader [] = [replicate 32 (zero_image, 0), [(zero_image, 1)]]"
proof -
  have "chunks 32 (replicate 32 (zero_image, 0 :: nat) @ [(zero_image, 1)])
      = replicate 32 (zero_image, 0) # chunks 32 [(zero_image, 1)]"
    by (rule chunks_append_full) simp_all
  moreover have "chunks 32 [(zero_image, 1 :: nat)] = [[(zero_image, 1)]]"
    by (simp add: chunks.simps)
  ultimately show ?thesis
    by (simp add: batches_def visit_order_def example_loader_def val_dataloader_def)
qed

lemma cross_entropy_example_0:
  "cross_entropy [1, 0, 0, 0, 0, 0, 0, 0] 0 = ln (exp 1 + 7) - 1"
  by (simp add: cross_entropy_def)

lemma cross_entropy_example_1:
  "cross_entropy [1, 0, 0, 0, 0, 0, 0, 0] (Suc 0) = ln (exp 1 + 7)"
  by (simp add: cross_entropy_def)

lemma argmax_example: "argmax [1, 0, 0, 0, 0, 0, 0, 0] = 0"
  by simp


lemma chunks_all_full:
  "0 < n \<Longrightarrow> n dvd length xs \<Longrightarrow> b \<in> set (chunks n xs) \<Longrightarrow> length b = n"
proof (induction n xs arbitrary: b rule: chunks.induct)
  case (1 n xs)
  show ?case
  proof (cases "xs = []")
    case True
    with 1(4) show ?thesis by simp
  next
    case False
    then have "0 < length xs" by simp
    with 1(3) have le: "n \<le> length xs" by (rule dvd_imp_le)
    have d: "n dvd length (drop n xs)" using 1(3) le by (simp add: dvd_diff_nat)
    from 1(2,4) False have "b = take n xs \<or> b \<in> set (chunks n (drop n xs))"
      by (simp add: chunks_step)
    then show ?thesis
    proof
      assume "b = take n xs"
      with le show ?thesis by simp
    next
      assume "b \<in> set (chunks n (drop n xs))"
      with 1(1)[of b] 1(2) False d show ?thesis by simp
    qed
  qed
qed

lemma sum_list_map_concat: "sum_list (map f (concat xss)) = sum_list (map (\<lambda>xs. sum_list (map f xs)) xss)"
  by (induction xss) simp_all

lemma sum_list_mset_cong: "mset xs = mset ys \<Longrightarrow> sum_list (map f xs) = sum_list (map (f :: 'a \<Rightarrow> real) ys)"
proof -
  assume "mset xs = mset ys"
  then have "mset (map f xs) = mset (map f ys)" by (metis mset_map)
  then show ?thesis by (metis sum_mset_sum_list)
qed

lemma sum_list_map_divide:
  "sum_list (map (\<lambda>x. f x / (c :: real)) xs) = sum_list (map f xs) / c"
  by (induction xs) (simp_all add: add_divide_distrib)

lemma mean_of_equal_batches:
  assumes B: "0 < batch_size dl" and P: "sampler_order dl perm"
    and D: "batch_size dl dvd length (dataset dl)"
  shows "sum_list (map (mean_loss m) (batches dl perm)) / real (length (batches dl perm))
       = mean_loss m (dataset dl)"
proof -
  let ?f = "\<lambda>s. cross_entropy (scores m (data (fst s))) (snd s)"
  let ?bs = "batches dl perm"
  let ?B = "batch_size dl"
  let ?S = "length (dataset dl)"
  have lv: "length (visit_order dl perm) = ?S" by (rule length_visit_order[OF P])
  have full: "\<And>b. b \<in> set ?bs \<Longrightarrow> length b = ?B"
    using chunks_all_full[OF B, of "visit_order dl perm"] D
    by (simp add: batches_visit lv)
  have "map (mean_loss m) ?bs = map (\<lambda>b. sum_list (map ?f b) / real ?B) ?bs"
    by (rule map_cong) (simp_all add: mean_loss_def full)
  then have "sum_list (map (mean_loss m) ?bs)
      = sum_list (map (\<lambda>b. sum_list (map ?f b) / real ?B) ?bs)" by (rule arg_cong)
  also have "\<dots> = sum_list (map (\<lambda>b. sum_list (map ?f b)) ?bs) / real ?B"
    by (rule sum_list_map_divide)
  also have "\<dots> = sum_list (map ?f (concat ?bs)) / real ?B"
    by (simp only: sum_list_map_concat)
  also have "\<dots> = sum_list (map ?f (dataset dl)) / real ?B"
    by (simp add: batches_visit concat_chunks[OF B]
        sum_list_mset_cong[OF mset_visit_order[OF P]])
  finally have s: "sum_list (map (mean_loss m) ?bs) = sum_list (map ?f (dataset dl)) / real ?B" .
  from D obtain k where k: "?S = ?B * k" by (auto simp: dvd_def)
  obtain j where j: "?B = Suc j" using B by (cases ?B) auto
  have "(?B * k + ?B - 1) div ?B = k"
  proof (rule div_nat_eqI)
    show "?B * k \<le> ?B * k + ?B - 1" by (simp add: j)
    show "?B * k + ?B - 1 < ?B * Suc k" by (simp add: j)
  qed
  then have n: "length ?bs = k"
    using B by (simp only: batches_visit length_chunks lv k)
  show ?thesis
    unfolding s n mean_loss_def using B by (simp add: k)
qed


text \<open>
  Claim C1, as amended.  On a non-empty validation split read from an image folder,
  \<^verbatim>\<open>test\<close> returns once, after all batches: the percentage of the samples of the split
  whose first highest score is at the true label, and the mean over the batches of the
  mean loss of each batch.  That second figure is the mean loss of the samples of the
  split when the batch size divides the size of the split.
\<close>

theorem test_returns_split_metrics:
  assumes "notebook_env E" and "0 < batch_size dl" and "sampler_order dl perm"
    and "image_folder (dataset dl)" and "dataset dl \<noteq> []"
  shows "test E dl perm m =
           (m\<lparr>training := False\<rparr>,
            Inr (accuracy m (dataset dl),
                 sum_list (map (mean_loss m) (batches dl perm)) / real (length (batches dl perm))))
       \<and> (batch_size dl dvd length (dataset dl) \<longrightarrow>
            sum_list (map (mean_loss m) (batches dl perm)) / real (length (batches dl perm))
              = mean_loss m (dataset dl))"
  using test_value[OF assms] mean_of_equal_batches[OF assms(2,3)] by simp

text \<open>The small run satisfies the hypotheses.\<close>

theorem test_returns_split_metrics_witness:
  "notebook_env example_env \<and> 0 < batch_size example_loader \<and> sampler_order example_loader []
   \<and> image_folder (dataset example_loader) \<and> dataset example_loader \<noteq> []
   \<and> test example_env example_loader [] example_model =
        (example_model\<lparr>training := False\<rparr>,
         Inr (accuracy example_model (dataset example_loader),
              sum_list (map (mean_loss example_model) (batches example_loader []))
                / real (length (batches example_loader []))))"
proof -
  note B = batch_size_example and N = nonempty_example
  show ?thesis
    using test_returns_split_metrics[OF notebook_env_example B sampler_order_example
        image_folder_example N, of example_model]
      notebook_env_example B sampler_order_example image_folder_example N
    by simp
qed


text \<open>
  Claim C1 as stated fails: on 33 samples the validation loader gives a batch of 32 and a
  batch of one, and the loss that \<^verbatim>\<open>test\<close> returns is not the mean loss of the 33
  samples, because the batch of one weighs as much as the batch of 32.
\<close>

theorem test_loss_counterexample:
  "snd (test example_env example_loader [] example_model)
      = Inr (3200 / 33, ln (exp 1 + 7) - 1 / 2)
   \<and> mean_loss example_model (dataset example_loader) = ln (exp 1 + 7) - 32 / 33
   \<and> snd (test example_env example_loader [] example_model)
       \<noteq> Inr (accuracy example_model (dataset example_loader),
               mean_loss example_model (dataset example_loader))"
proof -
  have a: "accuracy example_model (dataset example_loader) = 3200 / 33"
    by (simp add: accuracy_def dataset_example)
  have b: "sum_list (map (mean_loss example_model) (batches example_loader []))
             / real (length (batches example_loader [])) = ln (exp 1 + 7) - 1 / 2"
    by (simp add: batches_example mean_loss_def
        cross_entropy_example_0 cross_entropy_example_1 sum_list_replicate field_simps)
  have t: "snd (test example_env example_loader [] example_model) =
      Inr (3200 / 33, ln (exp 1 + 7) - 1 / 2)"
    unfolding test_value[OF notebook_env_example batch_size_example sampler_order_example
        image_folder_example nonempty_example]
    by (simp only: snd_conv a b)
  have l: "mean_loss example_model (dataset example_loader) = ln (exp 1 + 7) - 32 / 33"
    by (simp add: mean_loss_def dataset_example
        cross_entropy_example_0 cross_entropy_example_1 sum_list_replicate field_simps)
  show ?thesis
    unfolding t l by simp
qed

lemma cross_entropy_nonneg:
  assumes "t < length row"
  shows "0 \<le> cross_entropy row t"
proof -
  have m: "exp (row ! t) \<in> set (map exp row)" using assms by simp
  have nn: "\<And>x. x \<in> set (map exp row) \<Longrightarrow> 0 \<le> x" by auto
  have le: "exp (row ! t) \<le> sum_list (map exp row)"
    by (rule member_le_sum_list[OF m nn])
  have "0 < exp (row ! t)" by simp
  with le have pos: "0 < sum_list (map exp row)" by linarith
  have "row ! t \<le> ln (sum_list (map exp row))"
    using le by (simp only: ln_ge_iff[OF pos])
  then show ?thesis by (simp add: cross_entropy_def)
qed

lemma mean_loss_nonneg: "image_folder b \<Longrightarrow> 0 \<le> mean_loss m b"
proof -
  assume b: "image_folder b"
  have "0 \<le> sum_list (map (\<lambda>s. cross_entropy (scores m (data (fst s))) (snd s)) b)"
  proof (rule sum_list_nonneg)
    fix x assume "x \<in> set (map (\<lambda>s. cross_entropy (scores m (data (fst s))) (snd s)) b)"
    then obtain s where s: "s \<in> set b" "x = cross_entropy (scores m (data (fst s))) (snd s)"
      by auto
    from b s(1) have "snd s < 8" by (simp add: image_folder_iff)
    then show "0 \<le> x" unfolding s(2) by (intro cross_entropy_nonneg) simp
  qed
  then show ?thesis by (simp add: mean_loss_def)
qed

lemma accuracy_bounds: "0 \<le> accuracy m ds \<and> accuracy m ds \<le> 100"
proof -
  let ?c = "length (filter (\<lambda>s. argmax (scores m (data (fst s))) = snd s) ds)"
  have "?c \<le> length ds" by (rule length_filter_le)
  then have "real ?c \<le> real (length ds)" by (rule of_nat_mono)
  then have "real ?c / real (length ds) \<le> 1"
    by (simp add: divide_le_eq_1)
  then have "100 * (real ?c / real (length ds)) \<le> 100 * 1"
    by (intro mult_left_mono) simp_all
  then show ?thesis by (simp add: accuracy_def)
qed


text \<open>
  Over the real numbers, where nothing overflows, the accuracy that \<^verbatim>\<open>test\<close> returns is
  between 0 and 100 and the mean loss is not negative.
\<close>

lemma test_metrics_in_range_reals:
  assumes "notebook_env E" and "0 < batch_size dl" and "sampler_order dl perm"
    and "image_folder (dataset dl)" and "dataset dl \<noteq> []"
  shows "\<exists>acc loss. snd (test E dl perm m) = Inr (acc, loss)
           \<and> 0 \<le> acc \<and> acc \<le> 100 \<and> 0 \<le> loss"
proof -
  have "0 \<le> sum_list (map (mean_loss m) (batches dl perm))"
  proof (rule sum_list_nonneg)
    fix x assume "x \<in> set (map (mean_loss m) (batches dl perm))"
    then obtain b where "b \<in> set (batches dl perm)" "x = mean_loss m b" by auto
    then show "0 \<le> x"
      using batches_ok[OF assms(2,3,4)] mean_loss_nonneg by simp
  qed
  then have "0 \<le> sum_list (map (mean_loss m) (batches dl perm)) / real (length (batches dl perm))"
    by simp
  then show ?thesis
    using accuracy_bounds[of m "dataset dl"] by (simp add: test_value[OF assms])
qed

subsection \<open>The model\<close>

lemma chunks_exact_rows:
  "0 < n \<Longrightarrow> length xs = k * n \<Longrightarrow> length (chunks n xs) = k"
proof -
  assume n: "0 < n" and l: "length xs = k * n"
  obtain j where j: "n = Suc j" using n by (cases n) auto
  have "(k * n + n - 1) div n = k"
  proof (rule div_nat_eqI)
    show "n * k \<le> k * n + n - 1" by (simp add: j)
    show "k * n + n - 1 < n * Suc k" by (simp add: j)
  qed
  then show ?thesis using n by (simp only: length_chunks l)
qed

text \<open>
  Claim C4.  On a batch of \<open>n\<close> samples whose dimensions after the first multiply to
  3 * 64 * 64, \<^verbatim>\<open>forward\<close> returns an \<open>n\<close> by 8 matrix whose row for a sample is computed
  from the sample's flattened elements by a linear transform, the clamping of negative
  values to zero, a second linear transform, the clamping again, and a last linear
  transform; the scores are the output of that last transform as it is, with no
  normalisation.
\<close>

theorem forward_topology:
  assumes "shape x = n # s" and "s \<noteq> []" and "prod_list s = 3 * 64 * 64"
    and "length (data x) = n * (3 * 64 * 64)"
  shows "forward m x =
           Inr \<lparr>shape = [n, 8],
                data = concat (map (\<lambda>row. affine 64 8 (last_0 m)
                                 (map (max 0) (affine 64 64 (stack_2 m)
                                   (map (max 0) (affine (3 * 64 * 64) 64 (stack_0 m) row)))))
                               (chunks (3 * 64 * 64) (data x)))\<rparr>
       \<and> length (chunks (3 * 64 * 64) (data x)) = n
       \<and> (\<forall>row \<in> set (chunks (3 * 64 * 64) (data x)). length row = 3 * 64 * 64)
       \<and> concat (chunks (3 * 64 * 64) (data x)) = data x"
proof (intro conjI ballI)
  have "prod_list s = 12288" using assms(3) by simp
  from forward_rows[OF assms(1,2) this, of m]
  show "forward m x =
           Inr \<lparr>shape = [n, 8],
                data = concat (map (\<lambda>row. affine 64 8 (last_0 m)
                                 (map (max 0) (affine 64 64 (stack_2 m)
                                   (map (max 0) (affine (3 * 64 * 64) 64 (stack_0 m) row)))))
                               (chunks (3 * 64 * 64) (data x)))\<rparr>"
    by (simp add: scores_fun)
next
  show "length (chunks (3 * 64 * 64) (data x)) = n"
    by (rule chunks_exact_rows) (simp_all add: assms(4))
next
  fix row assume "row \<in> set (chunks (3 * 64 * 64) (data x))"
  then show "length row = 3 * 64 * 64"
    by (intro chunks_all_full[of _ "data x"]) (simp_all add: assms(4))
next
  show "concat (chunks (3 * 64 * 64) (data x)) = data x"
    by (rule concat_chunks) simp
qed

text \<open>One black image through the example network: the raw scores are its last bias.\<close>

theorem forward_topology_witness:
  "shape \<lparr>shape = [1, 3, 64, 64], data = replicate 12288 0\<rparr> = 1 # [3, 64, 64]
   \<and> [3, 64, 64] \<noteq> ([] :: nat list) \<and> prod_list [3, 64, 64] = (3 * 64 * 64 :: nat)
   \<and> length (data \<lparr>shape = [1, 3, 64, 64], data = replicate 12288 0\<rparr>) = 1 * (3 * 64 * 64)
   \<and> forward example_model \<lparr>shape = [1, 3, 64, 64], data = replicate 12288 0\<rparr>
       = Inr \<lparr>shape = [1, 8], data = [1, 0, 0, 0, 0, 0, 0, 0]\<rparr>"
proof -
  let ?x = "\<lparr>shape = [1, 3, 64, 64], data = replicate 12288 0\<rparr>"
  have a: "shape ?x = 1 # [3, 64, 64]" by simp
  have b: "[3, 64, 64] \<noteq> ([] :: nat list)" by simp
  have c: "prod_list [3, 64, 64] = (3 * 64 * 64 :: nat)" by simp
  have d: "length (data ?x) = 1 * (3 * 64 * 64)" by simp
  have r: "chunks 12288 (replicate 12288 (0 :: real)) = [replicate 12288 0]"
    using chunks_append_full[of 12288 "replicate 12288 (0 :: real)" "[]"] by simp
  from forward_topology[OF a b c d, of example_model]
  have "forward example_model ?x =
      Inr \<lparr>shape = [1, 8], data = scores example_model (replicate 12288 0)\<rparr>"
    by (simp add: r scores_def)
  then show ?thesis by simp
qed

subsection \<open>The training step\<close>

lemma get_parameter_map:
  "get_parameter (map_parameters f m) n = f n (get_parameter m n)"
  by (cases n) (simp_all add: map_parameters_def)

lemma map2_add_zeros:
  "length a = length g \<Longrightarrow> map2 (+) (map (\<lambda>_. 0) a) g = (g :: real list)"
  by (induction a g rule: list_induct2) simp_all

text \<open>
  Claim C3.  The body of the loop of \<^verbatim>\<open>train\<close> on a batch whose forward pass and loss
  succeed: the loss is computed from the predictions of the model as it is before the
  update; then the gradient buffers are reset, the backward pass fills them, and the
  optimizer moves every parameter against its gradient, in that order.  Afterwards every
  buffer holds the gradient of this batch alone, whatever it held before, and every
  parameter is its old value minus the learning rate times that gradient.  The step
  yields the loss of the batch, which \<^verbatim>\<open>train\<close> adds to its running sum.
\<close>

theorem train_batch_steps:
  assumes F: "fwd E m X = Inr pred" and L: "loss_fn E pred y = Inr loss"
    and G: "\<forall>n. case grad (get_parameter m n) of None \<Rightarrow> True
               | Some a \<Rightarrow> length a = length (autograd E (parameter_values m) X y n)"
  shows "train_batch E m X y =
           (step (optimizer E)
              (backward (autograd E (parameter_values m) X y) (zero_grad (optimizer E) m)),
            Inr loss)
       \<and> (\<forall>n. grad (get_parameter (fst (train_batch E m X y)) n)
                = Some (autograd E (parameter_values m) X y n))
       \<and> (\<forall>n. pdata (get_parameter (fst (train_batch E m X y)) n)
                = map2 (\<lambda>w dw. w - lr (optimizer E) * dw) (parameter_values m n)
                    (autograd E (parameter_values m) X y n))"
proof -
  let ?g = "autograd E (parameter_values m) X y"
  have t: "train_batch E m X y =
      (step (optimizer E) (backward ?g (zero_grad (optimizer E) m)), Inr loss)"
    by (simp add: train_batch_def F L)
  have z: "grad (get_parameter (backward ?g (zero_grad (optimizer E) m)) n) = Some (?g n)" for n
  proof (cases "grad (get_parameter m n)")
    case None
    then show ?thesis by (simp add: backward_def zero_grad_def get_parameter_map)
  next
    case (Some a)
    with G have "length a = length (?g n)" by (auto dest: spec[of _ n])
    with Some show ?thesis
      by (simp add: backward_def zero_grad_def get_parameter_map map2_add_zeros)
  qed
  have p: "pdata (get_parameter (backward ?g (zero_grad (optimizer E) m)) n) = parameter_values m n" for n
    by (simp add: backward_def zero_grad_def get_parameter_map parameter_values_def)
  have s1: "grad (get_parameter (step (optimizer E) (backward ?g (zero_grad (optimizer E) m))) n)
      = Some (?g n)" for n
    using z[of n] by (simp add: step_def get_parameter_map)
  have s2: "pdata (get_parameter (step (optimizer E) (backward ?g (zero_grad (optimizer E) m))) n)
      = map2 (\<lambda>w dw. w - lr (optimizer E) * dw) (parameter_values m n) (?g n)" for n
    using z[of n] p[of n] by (simp add: step_def get_parameter_map)
  show ?thesis
    by (simp add: t s1 s2)
qed

text \<open>One step of the example network on one black image.\<close>

theorem train_batch_steps_witness:
  "fwd example_env example_model \<lparr>shape = [1, 3, 64, 64], data = replicate 12288 0\<rparr>
       = Inr \<lparr>shape = [1, 8], data = [1, 0, 0, 0, 0, 0, 0, 0]\<rparr>
   \<and> loss_fn example_env \<lparr>shape = [1, 8], data = [1, 0, 0, 0, 0, 0, 0, 0]\<rparr> [0]
       = Inr (ln (exp 1 + 7) - 1)
   \<and> (\<forall>n. case grad (get_parameter example_model n) of None \<Rightarrow> True
        | Some a \<Rightarrow> length a = length (autograd example_env (parameter_values example_model)
             \<lparr>shape = [1, 3, 64, 64], data = replicate 12288 0\<rparr> [0] n))
   \<and> snd (train_batch example_env example_model
           \<lparr>shape = [1, 3, 64, 64], data = replicate 12288 0\<rparr> [0]) = Inr (ln (exp 1 + 7) - 1)
   \<and> grad (get_parameter (fst (train_batch example_env example_model
           \<lparr>shape = [1, 3, 64, 64], data = replicate 12288 0\<rparr> [0])) last_0_bias)
       = Some [1, 1, 1, 1, 1, 1, 1, 1]
   \<and> pdata (get_parameter (fst (train_batch example_env example_model
           \<lparr>shape = [1, 3, 64, 64], data = replicate 12288 0\<rparr> [0])) last_0_bias)
       = [99 / 100, - (1 / 100), - (1 / 100), - (1 / 100), - (1 / 100), - (1 / 100),
          - (1 / 100), - (1 / 100)]"
proof -
  let ?X = "\<lparr>shape = [1, 3, 64, 64], data = replicate 12288 0\<rparr>"
  let ?P = "\<lparr>shape = [1, 8], data = [1, 0, 0, 0, 0, 0, 0, 0]\<rparr>"
  have b: "image_folder [(zero_image, 0)]" by (simp add: zero_image_def)
  have F: "fwd example_env example_model ?X = Inr ?P"
    using forward_batch[OF b, of example_model]
    by (simp add: example_env_def zero_image_def)
  have L: "loss_fn example_env ?P [0] = Inr (ln (exp 1 + 7) - 1)"
    using CrossEntropyLoss_batch[OF b, of example_model]
    by (simp add: example_env_def mean_loss_def cross_entropy_example_0)
  have N: "grad (get_parameter example_model n) = None" for n
    by (cases n) (simp_all add: example_model_def NeuralNetwork_init_def)
  have G: "\<forall>n. case grad (get_parameter example_model n) of None \<Rightarrow> True
        | Some a \<Rightarrow> length a = length (autograd example_env (parameter_values example_model) ?X [0] n)"
    by (simp add: N)
  have v: "parameter_values example_model last_0_bias = [1, 0, 0, 0, 0, 0, 0, 0]"
    by (simp add: parameter_values_def example_model_def NeuralNetwork_init_def)
  have a: "autograd example_env (parameter_values example_model) ?X [0] last_0_bias
      = [1, 1, 1, 1, 1, 1, 1, 1]"
    by (simp add: example_env_def v)
  have o: "lr (optimizer example_env) = 1 / 100" by (simp add: example_env_def)
  note T = train_batch_steps[OF F L G]
  have t1: "snd (train_batch example_env example_model ?X [0]) = Inr (ln (exp 1 + 7) - 1)"
    using T by simp
  have t2: "grad (get_parameter (fst (train_batch example_env example_model ?X [0])) last_0_bias)
      = Some [1, 1, 1, 1, 1, 1, 1, 1]"
    using T a by metis
  have "pdata (get_parameter (fst (train_batch example_env example_model ?X [0])) last_0_bias)
      = map2 (\<lambda>w dw. w - lr (optimizer example_env) * dw) [1, 0, 0, 0, 0, 0, 0, 0]
          [1, 1, 1, 1, 1, 1, 1, 1]"
    using T a v by metis
  then have t3: "pdata (get_parameter (fst (train_batch example_env example_model ?X [0])) last_0_bias)
      = [99 / 100, - (1 / 100), - (1 / 100), - (1 / 100), - (1 / 100), - (1 / 100),
          - (1 / 100), - (1 / 100)]"
    by (simp add: o)
  show ?thesis
    using F L G t1 t2 t3 by blast
qed

subsection \<open>The epoch loop\<close>

lemma collate_batch_tensor:
  "image_folder b \<Longrightarrow> b \<noteq> [] \<Longrightarrow> collate b = Inr (batch_tensor b, map snd b)"
  by (simp add: collate_image_folder batch_tensor_def)

lemma train_batch_value:
  assumes E: "notebook_env E" and b: "image_folder b" "b \<noteq> []"
  shows "train_batch E m (batch_tensor b) (map snd b) = (sgd_update E m b, Inr (mean_loss m b))"
  using forward_batch[OF b(1), of m] CrossEntropyLoss_batch[OF b, of m]
  by (simp add: train_batch_def fwd_notebook[OF E] loss_notebook[OF E] batch_tensor_def
      sgd_update_def Let_def)

lemma train_loop_value:
  assumes E: "notebook_env E"
  shows "(\<And>b. b \<in> set bs \<Longrightarrow> image_folder b \<and> b \<noteq> []) \<Longrightarrow>
     train_loop E m bs a = (sgd_pass E m bs, Inr (a + sum_list (pass_losses E m bs)))"
proof (induction bs arbitrary: m a)
  case Nil
  then show ?case by simp
next
  case (Cons b bs)
  have b: "image_folder b" "b \<noteq> []" using Cons.prems[of b] by simp_all
  have rest: "\<And>b'. b' \<in> set bs \<Longrightarrow> image_folder b' \<and> b' \<noteq> []"
    using Cons.prems by simp
  show ?case
    by (simp add: collate_batch_tensor[OF b] train_batch_value[OF E b] Cons.IH[OF rest]
        add.assoc)
qed

text \<open>
  A call of \<^verbatim>\<open>train\<close> on a non-empty image folder is a full training pass: it leaves the
  model that the training steps on all batches of the pass produce, one after the other,
  and returns the mean of their losses.
\<close>

lemma train_value:
  assumes E: "notebook_env E" and B: "0 < batch_size dl" and P: "sampler_order dl perm"
    and I: "image_folder (dataset dl)" and N: "dataset dl \<noteq> []"
  shows "train E dl perm m =
     (sgd_pass E (m\<lparr>training := True\<rparr>) (batches dl perm),
      Inr (sum_list (pass_losses E (m\<lparr>training := True\<rparr>) (batches dl perm))
             / real (length (batches dl perm))))"
proof -
  have ok: "\<And>b. b \<in> set (batches dl perm) \<Longrightarrow> image_folder b \<and> b \<noteq> []"
    using batches_ok[OF B P I] by blast
  have nb: "len_DataLoader dl = length (batches dl perm)"
    by (rule len_DataLoader_batches[OF B P])
  have pos: "0 < length (batches dl perm)"
    using len_DataLoader_pos[OF B N] nb by simp
  show ?thesis
    using pos by (simp add: train_def Let_def train_loop_value[OF E ok] nb)
qed

lemma foldl_max_Max: "foldl max (b :: real) xs = Max (insert b (set xs))"
proof (induction xs arbitrary: b)
  case Nil
  then show ?case by simp
next
  case (Cons x xs)
  have "Max (insert (max b x) (set xs)) = Max (insert b (insert x (set xs)))"
    by (cases "set xs = {}") (simp_all add: max.assoc)
  with Cons show ?case by simp
qed

lemma Max_insert_zero:
  assumes "xs \<noteq> []" and "\<And>x. x \<in> set xs \<Longrightarrow> (0 :: real) \<le> x"
  shows "Max (insert 0 (set xs)) = Max (set xs)"
proof -
  have ne: "set xs \<noteq> {}" using assms(1) by simp
  have "Max (set xs) \<in> set xs" using ne by (intro Max_in) simp_all
  then have "0 \<le> Max (set xs)" by (rule assms(2))
  then show ?thesis using ne by (simp add: max_def)
qed

lemma sampler_order_no_shuffle: "\<not> shuffle dl \<Longrightarrow> sampler_order dl perm"
  by (simp add: sampler_order_def)

lemma test_correct_of_epoch_row:
  "test_correct_of (epoch_row E tr va perms m k) =
     accuracy (sgd_pass E ((model_after E tr perms m k)\<lparr>training := True\<rparr>) (batches tr (perms k)))
       (dataset va)"
  by (simp add: epoch_row_def Let_def test_correct_of_def)

lemma epoch_loop_range:
  assumes E: "notebook_env E"
    and tr: "0 < batch_size tr" "\<And>k. sampler_order tr (perms k)" "image_folder (dataset tr)"
            "dataset tr \<noteq> []"
    and va: "0 < batch_size va" "\<not> shuffle va" "image_folder (dataset va)" "dataset va \<noteq> []"
  shows "epoch_loop E tr va perms [a..<a + n] (model_after E tr perms m a, best, out) =
     Inr (model_after E tr perms m (a + n),
          foldl max best (map (\<lambda>k. test_correct_of (epoch_row E tr va perms m k)) [a..<a + n]),
          out @ map (epoch_row E tr va perms m) [a..<a + n])"
proof (induction n arbitrary: a best out)
  case 0
  then show ?case by simp
next
  case (Suc n)
  let ?m0 = "(model_after E tr perms m a)\<lparr>training := True\<rparr>"
  let ?m1 = "sgd_pass E ?m0 (batches tr (perms a))"
  have t: "train E tr (perms a) (model_after E tr perms m a) =
      (?m1, Inr (sum_list (pass_losses E ?m0 (batches tr (perms a)))
                   / real (length (batches tr (perms a)))))"
    by (rule train_value[OF E tr(1) tr(2)[of a] tr(3,4)])
  have P: "sampler_order va []" by (rule sampler_order_no_shuffle[OF va(2)])
  note tv = test_value[OF E va(1) P va(3,4), of ?m1]
  have row: "epoch_row E tr va perms m a =
      (a + 1, sum_list (pass_losses E ?m0 (batches tr (perms a)))
                / real (length (batches tr (perms a))),
       sum_list (map (mean_loss ?m1) (batches va [])) / real (length (batches va [])),
       accuracy ?m1 (dataset va))"
    by (simp add: epoch_row_def Let_def)
  have nxt: "model_after E tr perms m (Suc a) = ?m1\<lparr>training := False\<rparr>"
    by simp
  have up: "[a..<a + Suc n] = a # [Suc a..<Suc a + n]"
    by (simp add: upt_conv_Cons)
  have "epoch_loop E tr va perms [a..<a + Suc n] (model_after E tr perms m a, best, out) =
      epoch_loop E tr va perms [Suc a..<Suc a + n]
        (model_after E tr perms m (Suc a), max best (accuracy ?m1 (dataset va)),
         out @ [epoch_row E tr va perms m a])"
    unfolding up row nxt by (simp add: t tv del: model_after.simps)
  also have "\<dots> = Inr (model_after E tr perms m (Suc a + n),
          foldl max (max best (accuracy ?m1 (dataset va)))
            (map (\<lambda>k. test_correct_of (epoch_row E tr va perms m k)) [Suc a..<Suc a + n]),
          (out @ [epoch_row E tr va perms m a]) @ map (epoch_row E tr va perms m) [Suc a..<Suc a + n])"
    by (rule Suc.IH)
  also have "\<dots> = Inr (model_after E tr perms m (a + Suc n),
          foldl max best (map (\<lambda>k. test_correct_of (epoch_row E tr va perms m k)) [a..<a + Suc n]),
          out @ map (epoch_row E tr va perms m) [a..<a + Suc n])"
    unfolding up by (simp add: test_correct_of_epoch_row del: model_after.simps)
  finally show ?case .
qed

text \<open>
  Claim C5.  On non-empty image folders the epoch loop runs all 50 epochs, whatever the
  losses and accuracies are: it ends with the model after 50 epochs, one printed row per
  epoch, and a best score that is the largest validation accuracy among the 50 rows.  In
  epoch \<open>k\<close> the call of \<^verbatim>\<open>train\<close> is a full training pass, one training step on each of the
  \<open>\<lceil>S / B\<rceil>\<close> batches of the training loader, which together hold every training sample
  once; the call of \<^verbatim>\<open>test\<close> that follows evaluates the model that this pass left on
  the batches of the validation loader, which together hold every validation sample once,
  and its accuracy is the one in the row of the epoch.
\<close>

theorem epoch_driver_runs_all_epochs:
  assumes "notebook_env E"
    and "0 < batch_size tr" and "\<forall>k. sampler_order tr (perms k)"
    and "image_folder (dataset tr)" and "dataset tr \<noteq> []"
    and "0 < batch_size va" and "\<not> shuffle va"
    and "image_folder (dataset va)" and "dataset va \<noteq> []"
  shows "run_epochs E tr va perms m =
           Inr (model_after E tr perms m epochs,
                Max (set (map test_correct_of (map (epoch_row E tr va perms m) [0..<epochs]))),
                map (epoch_row E tr va perms m) [0..<epochs])
       \<and> length (map (epoch_row E tr va perms m) [0..<epochs]) = 50
       \<and> (\<forall>k. train E tr (perms k) (model_after E tr perms m k) =
               (sgd_pass E ((model_after E tr perms m k)\<lparr>training := True\<rparr>) (batches tr (perms k)),
                Inr (sum_list (pass_losses E ((model_after E tr perms m k)\<lparr>training := True\<rparr>)
                                 (batches tr (perms k)))
                       / real (length (batches tr (perms k)))))
             \<and> length (batches tr (perms k))
                 = nat \<lceil>real (length (dataset tr)) / real (batch_size tr)\<rceil>
             \<and> mset (concat (batches tr (perms k))) = mset (dataset tr)
             \<and> test E va [] (fst (train E tr (perms k) (model_after E tr perms m k))) =
               (model_after E tr perms m (Suc k),
                Inr (test_correct_of (epoch_row E tr va perms m k),
                     sum_list (map (mean_loss (fst (train E tr (perms k) (model_after E tr perms m k))))
                                 (batches va []))
                       / real (length (batches va []))))
             \<and> test_correct_of (epoch_row E tr va perms m k)
                 = accuracy (fst (train E tr (perms k) (model_after E tr perms m k))) (dataset va)
             \<and> mset (concat (batches va [])) = mset (dataset va))"
proof -
  let ?acc = "\<lambda>k. test_correct_of (epoch_row E tr va perms m k)"
  have so: "\<And>k. sampler_order tr (perms k)" using assms(3) by simp
  have P: "sampler_order va []" by (rule sampler_order_no_shuffle[OF assms(7)])
  have run: "run_epochs E tr va perms m =
      Inr (model_after E tr perms m epochs, foldl max 0 (map ?acc [0..<epochs]),
           map (epoch_row E tr va perms m) [0..<epochs])"
    using epoch_loop_range[OF assms(1,2) so assms(4-9), where a = 0 and n = epochs and m = m
        and best = 0 and out = "[]"]
    by (simp add: run_epochs_def)
  have ne: "map ?acc [0..<epochs] \<noteq> []" by (simp add: epochs_def)
  have nn: "\<And>x. x \<in> set (map ?acc [0..<epochs]) \<Longrightarrow> 0 \<le> x"
    using accuracy_bounds by (auto simp: test_correct_of_epoch_row)
  have best: "foldl max 0 (map ?acc [0..<epochs])
      = Max (set (map test_correct_of (map (epoch_row E tr va perms m) [0..<epochs])))"
    by (simp only: foldl_max_Max Max_insert_zero[OF ne nn] map_map o_def)
  have epoch: "train E tr (perms k) (model_after E tr perms m k) =
               (sgd_pass E ((model_after E tr perms m k)\<lparr>training := True\<rparr>) (batches tr (perms k)),
                Inr (sum_list (pass_losses E ((model_after E tr perms m k)\<lparr>training := True\<rparr>)
                                 (batches tr (perms k)))
                       / real (length (batches tr (perms k)))))
             \<and> length (batches tr (perms k))
                 = nat \<lceil>real (length (dataset tr)) / real (batch_size tr)\<rceil>
             \<and> mset (concat (batches tr (perms k))) = mset (dataset tr)
             \<and> test E va [] (fst (train E tr (perms k) (model_after E tr perms m k))) =
               (model_after E tr perms m (Suc k),
                Inr (test_correct_of (epoch_row E tr va perms m k),
                     sum_list (map (mean_loss (fst (train E tr (perms k) (model_after E tr perms m k))))
                                 (batches va []))
                       / real (length (batches va []))))
             \<and> test_correct_of (epoch_row E tr va perms m k)
                 = accuracy (fst (train E tr (perms k) (model_after E tr perms m k))) (dataset va)
             \<and> mset (concat (batches va [])) = mset (dataset va)" for k
  proof -
    let ?m0 = "(model_after E tr perms m k)\<lparr>training := True\<rparr>"
    let ?m1 = "sgd_pass E ?m0 (batches tr (perms k))"
    have t: "train E tr (perms k) (model_after E tr perms m k) =
        (?m1, Inr (sum_list (pass_losses E ?m0 (batches tr (perms k)))
                     / real (length (batches tr (perms k)))))"
      by (rule train_value[OF assms(1,2) so assms(4,5)])
    have f: "fst (train E tr (perms k) (model_after E tr perms m k)) = ?m1"
      by (simp add: t)
    have l: "length (batches tr (perms k))
        = nat \<lceil>real (length (dataset tr)) / real (batch_size tr)\<rceil>"
      using assms(2) so[of k]
      by (simp add: ceiling_div_nat batches_visit length_chunks length_visit_order)
    have c: "mset (concat (batches tr (perms k))) = mset (dataset tr)"
      by (simp add: batches_visit concat_chunks[OF assms(2)] mset_visit_order[OF so])
    have cv: "mset (concat (batches va [])) = mset (dataset va)"
      by (simp add: batches_visit concat_chunks[OF assms(6)] mset_visit_order[OF P])
    have tv: "test E va [] ?m1 =
        (model_after E tr perms m (Suc k),
         Inr (test_correct_of (epoch_row E tr va perms m k),
              sum_list (map (mean_loss ?m1) (batches va [])) / real (length (batches va []))))"
      by (simp add: test_value[OF assms(1,6) P assms(8,9)] test_correct_of_epoch_row)
    have a: "test_correct_of (epoch_row E tr va perms m k) = accuracy ?m1 (dataset va)"
      by (rule test_correct_of_epoch_row)
    show ?thesis
      unfolding f using t l c cv tv a by blast
  qed
  show ?thesis
  proof (intro conjI allI)
    show "run_epochs E tr va perms m =
           Inr (model_after E tr perms m epochs,
                Max (set (map test_correct_of (map (epoch_row E tr va perms m) [0..<epochs]))),
                map (epoch_row E tr va perms m) [0..<epochs])"
      by (simp only: run best)
    show "length (map (epoch_row E tr va perms m) [0..<epochs]) = 50"
      by (simp add: epochs_def)
  qed (use epoch in blast)+
qed

text \<open>The example network on a training folder of two images and a validation folder of one.\<close>

theorem epoch_driver_runs_all_epochs_witness:
  "notebook_env example_env
   \<and> 0 < batch_size (train_dataloader [(zero_image, 0), (zero_image, 1)])
   \<and> (\<forall>k. sampler_order (train_dataloader [(zero_image, 0), (zero_image, 1)]) [1, 0])
   \<and> image_folder (dataset (train_dataloader [(zero_image, 0), (zero_image, 1)]))
   \<and> dataset (train_dataloader [(zero_image, 0), (zero_image, 1)]) \<noteq> []
   \<and> 0 < batch_size (val_dataloader [(zero_image, 0)])
   \<and> \<not> shuffle (val_dataloader [(zero_image, 0)])
   \<and> image_folder (dataset (val_dataloader [(zero_image, 0)]))
   \<and> dataset (val_dataloader [(zero_image, 0)]) \<noteq> []
   \<and> (\<exists>model best out.
         run_epochs example_env (train_dataloader [(zero_image, 0), (zero_image, 1)])
           (val_dataloader [(zero_image, 0)]) (\<lambda>k. [1, 0]) example_model = Inr (model, best, out)
         \<and> length out = 50
         \<and> best = Max (set (map test_correct_of out)))
   \<and> batches (train_dataloader [(zero_image, 0), (zero_image, 1)]) [1, 0]
       = [[(zero_image, 1), (zero_image, 0)]]
   \<and> fst (train example_env (train_dataloader [(zero_image, 0), (zero_image, 1)]) [1, 0]
            example_model)
       = sgd_update example_env (example_model\<lparr>training := True\<rparr>)
           [(zero_image, 1), (zero_image, 0)]"
proof -
  let ?tr = "train_dataloader [(zero_image, 0), (zero_image, 1)]"
  let ?va = "val_dataloader [(zero_image, 0)]"
  have h1: "0 < batch_size ?tr" by (simp add: train_dataloader_def)
  have h2: "\<forall>k. sampler_order ?tr ((\<lambda>k. [1, 0]) k)"
    by (simp add: sampler_order_def train_dataloader_def upt_rec)
  have h3: "image_folder (dataset ?tr)" by (simp add: train_dataloader_def zero_image_def)
  have h4: "dataset ?tr \<noteq> []" by (simp add: train_dataloader_def)
  have h5: "0 < batch_size ?va" by (simp add: val_dataloader_def)
  have h6: "\<not> shuffle ?va" by (simp add: val_dataloader_def)
  have h7: "image_folder (dataset ?va)" by (simp add: val_dataloader_def zero_image_def)
  have h8: "dataset ?va \<noteq> []" by (simp add: val_dataloader_def)
  note T = epoch_driver_runs_all_epochs[OF notebook_env_example h1 h2 h3 h4 h5 h6 h7 h8,
      of example_model]
  let ?O = "map (epoch_row example_env ?tr ?va (\<lambda>k. [1, 0]) example_model) [0..<epochs]"
  let ?B = "Max (set (map test_correct_of ?O))"
  let ?M = "model_after example_env ?tr (\<lambda>k. [1, 0]) example_model epochs"
  have r1: "run_epochs example_env ?tr ?va (\<lambda>k. [1, 0]) example_model = Inr (?M, ?B, ?O)"
    using T by blast
  have r2: "length ?O = 50" using T by blast
  have r: "\<exists>model best out.
         run_epochs example_env ?tr ?va (\<lambda>k. [1, 0]) example_model = Inr (model, best, out)
         \<and> length out = 50 \<and> best = Max (set (map test_correct_of out))"
    using r1 r2 by blast
  have bs: "batches ?tr [1, 0] = [[(zero_image, 1), (zero_image, 0)]]"
    by (simp add: batches_def visit_order_def train_dataloader_def chunks.simps)
  have "train example_env ?tr [1, 0] (model_after example_env ?tr (\<lambda>k. [1, 0]) example_model 0) =
      (sgd_pass example_env ((model_after example_env ?tr (\<lambda>k. [1, 0]) example_model 0)\<lparr>training := True\<rparr>)
         (batches ?tr [1, 0]),
       Inr (sum_list (pass_losses example_env
               ((model_after example_env ?tr (\<lambda>k. [1, 0]) example_model 0)\<lparr>training := True\<rparr>)
               (batches ?tr [1, 0]))
             / real (length (batches ?tr [1, 0]))))"
    using T by blast
  then have f1: "fst (train example_env ?tr [1, 0] example_model)
      = sgd_pass example_env (example_model\<lparr>training := True\<rparr>) (batches ?tr [1, 0])"
    by simp
  have tr1: "fst (train example_env ?tr [1, 0] example_model)
      = sgd_update example_env (example_model\<lparr>training := True\<rparr>) [(zero_image, 1), (zero_image, 0)]"
    unfolding f1 bs by simp
  show ?thesis
    using notebook_env_example h1 h2 h3 h4 h5 h6 h7 h8 r bs tr1 by simp
qed

subsection \<open>The evaluation in single precision\<close>

lemma length_affine_f32 [simp]: "length (affine_f32 n_in n_out l row) = n_out"
  by (simp add: affine_f32_def)

lemma length_scores_f32 [simp]: "length (scores_f32 m row) = 8"
  by (simp add: scores_f32_def)








lemma count_correct_f32_le:
  "count_correct_f32 preds y \<le> length y"
proof -
  have "length (filter (\<lambda>(row, t). fargmax row = t)
           (zip (chunks (last (fshape preds)) (fdata preds)) y))
      \<le> length (zip (chunks (last (fshape preds)) (fdata preds)) y)"
    by (rule length_filter_le)
  then show ?thesis by (simp add: count_correct_f32_def)
qed


text \<open>Signs survive the operations, whatever the largest finite value is.\<close>

lemma f32_max_pos: "1 \<le> f32_max"
  by (simp add: f32_max_def)








lemma fadd_NaN_right [simp]: "fadd mx a NaN = NaN"
  by (cases a) simp_all

lemma fsub_NaN_right [simp]: "fsub mx a NaN = NaN"
  by (simp add: fsub_def)

lemma fsub_NaN_left [simp]: "fsub mx NaN b = NaN"
  by (simp add: fsub_def)

lemma fsub_self_infinite: "m = PInf \<or> m = NInf \<Longrightarrow> fsub mx m m = NaN"
  by (auto simp: fsub_def)












lemma fge1_ge0: "fge1 a \<Longrightarrow> fge0 a"
  by (cases a) simp_all














lemma scores_f32_training [simp]: "scores_f32 (m\<lparr>training := t\<rparr>) = scores_f32 m"
  by (rule ext) (simp add: scores_f32_def)






lemma fl_f32_zero [simp]: "fl f32_max 0 = Fin 0"
  using f32_max_pos by (simp add: fl_def)
















end
